theory Spec2Isabelle
  imports Complex_Main "HOL-Library.AList" "HOL-Library.Sublist"
begin

section \<open>Python values and exceptions\<close>

text \<open>
  The program \<^verbatim>\<open>generate_symbol_table.py\<close> works on decoded JSON documents.
  A decoded document is a value of type \<open>json\<close>: Python's \<^verbatim>\<open>None\<close> is \<open>JNull\<close>,
  an \<^verbatim>\<open>int\<close> is \<open>JInt\<close>, a finite \<^verbatim>\<open>float\<close> is \<open>JFloat\<close> of its exact
  rational value, a \<^verbatim>\<open>list\<close> is \<open>JArr\<close> and a \<^verbatim>\<open>dict\<close> is \<open>JObj\<close> of its
  items in insertion order. A lookup in a dict finds the first binding of the key
  (\<open>map_of\<close>); an item assignment replaces that binding or appends a new one
  (\<open>AList.update\<close>).
\<close>

datatype json =
    JNull
  | JBool bool
  | JInt int
  | JFloat rat
  | JStr string
  | JArr "json list"
  | JObj "(string \<times> json) list"

type_synonym dict = "(string \<times> json) list"

text \<open>
  Every exception the program can raise is a value of \<open>py_error\<close>. The two
  constructors \<open>ConnectionError\<close> and \<open>HTTPError\<close> are the subclasses of
  \<^verbatim>\<open>requests.exceptions.RequestException\<close> that the scripted network raises;
  \<open>KeyError\<close> carries the missing key, \<open>ValueError\<close> its message and
  \<open>OSError\<close> its error number.
\<close>

datatype py_error =
    ConnectionError
  | HTTPError nat
  | ValueError string
  | KeyError string
  | AttributeError
  | TypeError
  | FileExistsError
  | FileNotFoundError
  | IsADirectoryError
  | NotADirectoryError
  | PermissionError
  | OSError nat

fun is_RequestException :: "py_error \<Rightarrow> bool" where
  "is_RequestException ConnectionError = True"
| "is_RequestException (HTTPError _) = True"
| "is_RequestException _ = False"

text \<open>Truth value of a Python object, as \<^verbatim>\<open>if x\<close> and \<^verbatim>\<open>not x\<close> test it.\<close>

fun truthy :: "json \<Rightarrow> bool" where
  "truthy JNull = False"
| "truthy (JBool b) = b"
| "truthy (JInt i) = (i \<noteq> 0)"
| "truthy (JFloat r) = (r \<noteq> 0)"
| "truthy (JStr s) = (s \<noteq> [])"
| "truthy (JArr xs) = (xs \<noteq> [])"
| "truthy (JObj kvs) = (kvs \<noteq> [])"

text \<open>
  \<^verbatim>\<open>obj.get(key, default)\<close>: only a dict has the method \<^verbatim>\<open>get\<close>; on any other
  value the attribute lookup raises \<^verbatim>\<open>AttributeError\<close>.
\<close>

fun py_get :: "json \<Rightarrow> string \<Rightarrow> json \<Rightarrow> py_error + json" where
  "py_get (JObj kvs) key dflt = Inr (case map_of kvs key of None \<Rightarrow> dflt | Some v \<Rightarrow> v)"
| "py_get _ key dflt = Inl AttributeError"

text \<open>
  \<^verbatim>\<open>obj[key]\<close> with a string key: a dict raises \<^verbatim>\<open>KeyError\<close> when the key is
  missing; a string or list wants integer indices and every other JSON value is not
  subscriptable (\<^verbatim>\<open>TypeError\<close> in both cases).
\<close>

fun py_item :: "json \<Rightarrow> string \<Rightarrow> py_error + json" where
  "py_item (JObj kvs) key = (case map_of kvs key of None \<Rightarrow> Inl (KeyError key) | Some v \<Rightarrow> Inr v)"
| "py_item _ key = Inl TypeError"

text \<open>
  The elements a \<^verbatim>\<open>for\<close> loop visits: the elements of a list, the keys of a dict,
  the characters of a string; any other JSON value is not iterable.
\<close>

fun py_iter :: "json \<Rightarrow> py_error + json list" where
  "py_iter (JArr xs) = Inr xs"
| "py_iter (JObj kvs) = Inr (map (\<lambda>kv. JStr (fst kv)) kvs)"
| "py_iter (JStr s) = Inr (map (\<lambda>c. JStr [c]) s)"
| "py_iter _ = Inl TypeError"

section \<open>The Binance parsers\<close>

text \<open>
  The inner loop of \<^verbatim>\<open>BinanceSpotFetcher.parse_symbols\<close> and
  \<^verbatim>\<open>BinancePerpFetcher.parse_symbols\<close> over the filters of one symbol. The two
  arguments after the list are the loop's variables \<^verbatim>\<open>price_filter\<close> and
  \<^verbatim>\<open>qty_filter\<close>, both \<^verbatim>\<open>None\<close> at the start.
\<close>

fun scan_filters :: "json list \<Rightarrow> json \<Rightarrow> json \<Rightarrow> py_error + (json \<times> json)" where
  "scan_filters [] price_filter qty_filter = Inr (price_filter, qty_filter)"
| "scan_filters (filter_info # rest) price_filter qty_filter =
     (case py_item filter_info ''filterType'' of
        Inl e \<Rightarrow> Inl e
      | Inr t \<Rightarrow>
          if t = JStr ''PRICE_FILTER'' then scan_filters rest filter_info qty_filter
          else if t = JStr ''LOT_SIZE'' then scan_filters rest price_filter filter_info
          else scan_filters rest price_filter qty_filter)"

text \<open>
  The body of the outer loop for one \<^verbatim>\<open>symbol_info\<close>: the list of records it
  appends to \<^verbatim>\<open>symbols\<close> (none or one), or the exception it raises. The two
  Binance classes differ only in the constant stored under \<^verbatim>\<open>instrument\<close>, which
  is the first argument.
\<close>

definition binance_symbol :: "string \<Rightarrow> json \<Rightarrow> py_error + dict list" where
  "binance_symbol instrument symbol_info =
     (case py_get symbol_info ''status'' JNull of
        Inl e \<Rightarrow> Inl e
      | Inr status \<Rightarrow>
          if status \<noteq> JStr ''TRADING'' then Inr []
          else
            (case py_get symbol_info ''filters'' (JArr []) of
               Inl e \<Rightarrow> Inl e
             | Inr filters \<Rightarrow>
                 (case py_iter filters of
                    Inl e \<Rightarrow> Inl e
                  | Inr filter_list \<Rightarrow>
                      (case scan_filters filter_list JNull JNull of
                         Inl e \<Rightarrow> Inl e
                       | Inr (price_filter, qty_filter) \<Rightarrow>
                           if truthy price_filter \<and> truthy qty_filter then
                             (case py_item symbol_info ''symbol'' of
                                Inl e \<Rightarrow> Inl e
                              | Inr symbol \<Rightarrow>
                                  (case py_item symbol_info ''baseAsset'' of
                                     Inl e \<Rightarrow> Inl e
                                   | Inr base \<Rightarrow>
                                       (case py_item symbol_info ''quoteAsset'' of
                                          Inl e \<Rightarrow> Inl e
                                        | Inr quote \<Rightarrow>
                                            (case py_get price_filter ''tickSize'' (JStr '''') of
                                               Inl e \<Rightarrow> Inl e
                                             | Inr price_tick \<Rightarrow>
                                                 (case py_get qty_filter ''stepSize'' (JStr '''') of
                                                    Inl e \<Rightarrow> Inl e
                                                  | Inr sz_tick \<Rightarrow>
                                                      Inr [[(''symbol'', symbol),
                                                            (''base'', base),
                                                            (''quote'', quote),
                                                            (''instrument'', JStr instrument),
                                                            (''priceTick'', price_tick),
                                                            (''szTick'', sz_tick)]])))))
                           else Inr []))))"

text \<open>
  A \<^verbatim>\<open>for\<close> loop that appends to an accumulator and stops at the first
  exception. \<open>body\<close> is the loop body, \<open>symbols\<close> the accumulator.
\<close>

fun for_each :: "(json \<Rightarrow> py_error + dict list) \<Rightarrow> json list \<Rightarrow> dict list \<Rightarrow> py_error + dict list" where
  "for_each body [] symbols = Inr symbols"
| "for_each body (symbol_info # rest) symbols =
     (case body symbol_info of
        Inl e \<Rightarrow> Inl e
      | Inr new \<Rightarrow> for_each body rest (symbols @ new))"

definition binance_parse_symbols :: "string \<Rightarrow> json \<Rightarrow> py_error + dict list" where
  "binance_parse_symbols instrument exchange_info =
     (case py_get exchange_info ''symbols'' (JArr []) of
        Inl e \<Rightarrow> Inl e
      | Inr listed \<Rightarrow>
          (case py_iter listed of
             Inl e \<Rightarrow> Inl e
           | Inr symbol_infos \<Rightarrow> for_each (binance_symbol instrument) symbol_infos []))"

section \<open>The Bybit parser\<close>

text \<open>
  The pieces of the loop body of \<^verbatim>\<open>BybitFetcher.parse_symbols\<close>: the
  \<^verbatim>\<open>if/elif\<close> chain that maps the category to the instrument, and the choice of
  the field the size tick is read from.
\<close>

definition bybit_instrument :: "json \<Rightarrow> json" where
  "bybit_instrument category =
     (if category = JStr ''spot'' then JStr ''spot''
      else if category = JStr ''linear'' then JStr ''perp''
      else if category = JStr ''inverse'' then JStr ''inverse''
      else category)"

definition bybit_sz_tick :: "json \<Rightarrow> json \<Rightarrow> py_error + json" where
  "bybit_sz_tick category lot_size_filter =
     (if category = JStr ''linear'' \<or> category = JStr ''inverse''
      then py_get lot_size_filter ''qtyStep'' (JStr '''')
      else py_get lot_size_filter ''basePrecision'' (JStr ''''))"

text \<open>
  The loop body for one \<^verbatim>\<open>symbol_info\<close>. The statements run in the order of the
  source: the size tick is read before the dict literal is built, and inside the
  literal the three subscripts come before \<^verbatim>\<open>price_filter.get\<close>.
\<close>

definition bybit_symbol :: "json \<Rightarrow> py_error + dict list" where
  "bybit_symbol symbol_info =
     (case py_get symbol_info ''status'' JNull of
        Inl e \<Rightarrow> Inl e
      | Inr status \<Rightarrow>
          if status \<noteq> JStr ''Trading'' then Inr []
          else
            (case py_get symbol_info ''priceFilter'' (JObj []) of
               Inl e \<Rightarrow> Inl e
             | Inr price_filter \<Rightarrow>
                 (case py_get symbol_info ''lotSizeFilter'' (JObj []) of
                    Inl e \<Rightarrow> Inl e
                  | Inr lot_size_filter \<Rightarrow>
                      (case py_get symbol_info ''category'' (JStr ''spot'') of
                         Inl e \<Rightarrow> Inl e
                       | Inr category \<Rightarrow>
                           (case bybit_sz_tick category lot_size_filter of
                              Inl e \<Rightarrow> Inl e
                            | Inr sz_tick \<Rightarrow>
                                (case py_item symbol_info ''symbol'' of
                                   Inl e \<Rightarrow> Inl e
                                 | Inr symbol \<Rightarrow>
                                     (case py_item symbol_info ''baseCoin'' of
                                        Inl e \<Rightarrow> Inl e
                                      | Inr base \<Rightarrow>
                                          (case py_item symbol_info ''quoteCoin'' of
                                             Inl e \<Rightarrow> Inl e
                                           | Inr quote \<Rightarrow>
                                               (case py_get price_filter ''tickSize'' (JStr '''') of
                                                  Inl e \<Rightarrow> Inl e
                                                | Inr price_tick \<Rightarrow>
                                                    Inr [[(''symbol'', symbol),
                                                          (''base'', base),
                                                          (''quote'', quote),
                                                          (''instrument'', bybit_instrument category),
                                                          (''priceTick'', price_tick),
                                                          (''szTick'', sz_tick)]])))))))))"

definition bybit_parse_symbols :: "json \<Rightarrow> py_error + dict list" where
  "bybit_parse_symbols exchange_info =
     (case py_get exchange_info ''result'' (JObj []) of
        Inl e \<Rightarrow> Inl e
      | Inr result \<Rightarrow>
          (case py_get result ''list'' (JArr []) of
             Inl e \<Rightarrow> Inl e
           | Inr listed \<Rightarrow>
               (case py_iter listed of
                  Inl e \<Rightarrow> Inl e
                | Inr symbol_infos \<Rightarrow> for_each bybit_symbol symbol_infos [])))"

section \<open>The fetcher classes\<close>

text \<open>
  The three concrete subclasses of \<^verbatim>\<open>ExchangeInfoFetcher\<close>. The base class itself
  is never instantiated by the program: \<^verbatim>\<open>get_fetcher\<close> only builds these three.
\<close>

datatype fetcher = BinanceSpotFetcher | BinancePerpFetcher | BybitFetcher

fun base_url :: "fetcher \<Rightarrow> string" where
  "base_url BinanceSpotFetcher = ''https://api.binance.com/api''"
| "base_url BinancePerpFetcher = ''https://fapi.binance.com''"
| "base_url BybitFetcher = ''https://api.bybit.com''"

fun parse_symbols :: "fetcher \<Rightarrow> json \<Rightarrow> py_error + dict list" where
  "parse_symbols BinanceSpotFetcher exchange_info = binance_parse_symbols ''spot'' exchange_info"
| "parse_symbols BinancePerpFetcher exchange_info = binance_parse_symbols ''perp'' exchange_info"
| "parse_symbols BybitFetcher exchange_info = bybit_parse_symbols exchange_info"

section \<open>The world the program runs in\<close>

text \<open>
  The network is a script: the list of the answers the HTTP calls still to come
  will get, one per call, in order. An answer is a transport failure
  (\<^verbatim>\<open>requests.get\<close> raises) or a response with a status code and a body that
  decodes as JSON (a body that does not decode is outside the model). When the
  script is used up, every further call fails like a transport failure, so a
  finite script stands for a server that stops answering.
\<close>

datatype http_result = Transport_failure | Http_response nat json

record request =
  url :: string
  params :: dict

text \<open>
  What the program prints. A line is kept as the name of its format string and
  the values put into it, not as the formatted text.
\<close>

datatype out_line =
    Fetching_category string
  | Fetched nat string nat
  | Fetching_exchange_info string
  | Parsing_symbols
  | Found nat
  | Successfully_wrote nat string

datatype err_line =
    Invalid_choice string
  | Error_fetching_data py_error
  | Error_line py_error

text \<open>
  The file system holds directories and CSV files, both named by the list of
  their path components from the root. A CSV file is the list of the rows handed
  to the \<^verbatim>\<open>csv\<close> writer, a row being the list of its cell values; how the writer
  quotes a cell is not modelled. \<open>os_refuses\<close> gives, for a path, the error that
  the operating system raises for it whatever the tree holds (a name that is too
  long, a NUL character, a missing permission), if there is one.
\<close>

record world =
  script :: "http_result list"
  sent :: "request list"
  cwd :: "string list"
  dirs :: "string list set"
  files :: "string list \<rightharpoonup> json list list"
  os_refuses :: "string \<Rightarrow> py_error option"
  stdout :: "out_line list"
  stderr :: "err_line list"

definition print :: "out_line \<Rightarrow> world \<Rightarrow> world" where
  "print line w = w\<lparr>stdout := stdout w @ [line]\<rparr>"

definition print_stderr :: "err_line \<Rightarrow> world \<Rightarrow> world" where
  "print_stderr line w = w\<lparr>stderr := stderr w @ [line]\<rparr>"

subsection \<open>HTTP\<close>

definition requests_get :: "string \<Rightarrow> dict \<Rightarrow> world \<Rightarrow> (py_error + nat \<times> json) \<times> world" where
  "requests_get u ps w =
     (let w1 = w\<lparr>sent := sent w @ [\<lparr>url = u, params = ps\<rparr>]\<rparr>
      in case script w of
           [] \<Rightarrow> (Inl ConnectionError, w1)
         | Transport_failure # rest \<Rightarrow> (Inl ConnectionError, w1\<lparr>script := rest\<rparr>)
         | Http_response code body # rest \<Rightarrow> (Inr (code, body), w1\<lparr>script := rest\<rparr>))"

text \<open>\<^verbatim>\<open>Response.raise_for_status\<close> raises for the codes 400 to 599.\<close>

definition raise_for_status :: "nat \<times> json \<Rightarrow> py_error + unit" where
  "raise_for_status response =
     (if 400 \<le> fst response \<and> fst response < 600 then Inl (HTTPError (fst response)) else Inr ())"

text \<open>
  \<^verbatim>\<open>get_exchange_info\<close> of the two Binance classes: one GET without parameters;
  the classes differ in the path appended to the base URL.
\<close>

definition binance_get_exchange_info :: "string \<Rightarrow> world \<Rightarrow> (py_error + json) \<times> world" where
  "binance_get_exchange_info u w =
     (case requests_get u [] w of
        (Inl e, w1) \<Rightarrow> (Inl e, w1)
      | (Inr response, w1) \<Rightarrow>
          (case raise_for_status response of
             Inl e \<Rightarrow> (Inl e, w1)
           | Inr _ \<Rightarrow> (Inr (snd response), w1)))"

subsection \<open>Bybit pagination\<close>

text \<open>\<^verbatim>\<open>symbol['category'] = category\<close>: only a dict takes a string key.\<close>

fun set_category :: "string \<Rightarrow> json \<Rightarrow> py_error + json" where
  "set_category category (JObj kvs) = Inr (JObj (AList.update ''category'' (JStr category) kvs))"
| "set_category category _ = Inl TypeError"

text \<open>The loop \<^verbatim>\<open>for symbol in page_symbols\<close> that tags every symbol of a page.\<close>

fun tag_all :: "string \<Rightarrow> json list \<Rightarrow> py_error + json list" where
  "tag_all category [] = Inr []"
| "tag_all category (symbol # rest) =
     (case set_category category symbol of
        Inl e \<Rightarrow> Inl e
      | Inr tagged \<Rightarrow>
          (case tag_all category rest of
             Inl e \<Rightarrow> Inl e
           | Inr others \<Rightarrow> Inr (tagged # others)))"

text \<open>
  What one iteration of the \<^verbatim>\<open>while\<close> loop reads from the decoded response
  \<^verbatim>\<open>data\<close>: the value \<^verbatim>\<open>page_symbols\<close> as found in the response, the symbols
  that \<^verbatim>\<open>all_symbols.extend(page_symbols)\<close> adds (tagged by then), and
  \<^verbatim>\<open>next_cursor\<close>.
\<close>

definition read_page :: "string \<Rightarrow> json \<Rightarrow> py_error + (json \<times> json list \<times> json)" where
  "read_page category data =
     (case py_get data ''result'' (JObj []) of
        Inl e \<Rightarrow> Inl e
      | Inr result \<Rightarrow>
          (case py_get result ''list'' (JArr []) of
             Inl e \<Rightarrow> Inl e
           | Inr page_symbols \<Rightarrow>
               (case py_iter page_symbols of
                  Inl e \<Rightarrow> Inl e
                | Inr elems \<Rightarrow>
                    (case tag_all category elems of
                       Inl e \<Rightarrow> Inl e
                     | Inr tagged \<Rightarrow>
                         (case py_get result ''nextPageCursor'' JNull of
                            Inl e \<Rightarrow> Inl e
                          | Inr next_cursor \<Rightarrow> Inr (page_symbols, tagged, next_cursor))))))"

definition page_params :: "string \<Rightarrow> json \<Rightarrow> dict" where
  "page_params category cursor =
     [(''category'', JStr category), (''limit'', JInt 1000)] @
     (if truthy cursor then [(''cursor'', cursor)] else [])"

lemma requests_get_consumes:
  "requests_get u ps w = (Inr response, w1) \<Longrightarrow> length (script w1) < length (script w)"
  by (auto simp: requests_get_def Let_def split: list.splits http_result.splits)

text \<open>
  The \<^verbatim>\<open>while True\<close> loop of \<^verbatim>\<open>BybitFetcher.get_exchange_info\<close> for one
  category. Its state is \<^verbatim>\<open>cursor\<close> and \<^verbatim>\<open>all_symbols\<close>; every round takes
  one answer from the script, so the loop ends.
\<close>

function paginate :: "string \<Rightarrow> string \<Rightarrow> json \<Rightarrow> json list \<Rightarrow> world \<Rightarrow> (py_error + json list) \<times> world" where
  "paginate base category cursor all_symbols w =
     (case requests_get (base @ ''/v5/market/instruments-info'') (page_params category cursor) w of
        (Inl e, w1) \<Rightarrow> (Inl e, w1)
      | (Inr response, w1) \<Rightarrow>
          (case raise_for_status response of
             Inl e \<Rightarrow> (Inl e, w1)
           | Inr _ \<Rightarrow>
               (case read_page category (snd response) of
                  Inl e \<Rightarrow> (Inl e, w1)
                | Inr (page_symbols, tagged, next_cursor) \<Rightarrow>
                    if \<not> truthy next_cursor \<or> \<not> truthy page_symbols
                    then (Inr (all_symbols @ tagged), w1)
                    else paginate base category next_cursor (all_symbols @ tagged)
                           (print (Fetched (length tagged) category (length (all_symbols @ tagged))) w1))))"
  by pat_completeness auto
termination
  by (relation "measure (\<lambda>(base, category, cursor, all_symbols, w). length (script w))")
     (auto simp: print_def dest: requests_get_consumes [OF sym])

declare paginate.simps [simp del]

text \<open>The loop \<^verbatim>\<open>for category in categories\<close>.\<close>

fun fetch_categories :: "string \<Rightarrow> string list \<Rightarrow> json list \<Rightarrow> world \<Rightarrow> (py_error + json list) \<times> world" where
  "fetch_categories base [] all_symbols w = (Inr all_symbols, w)"
| "fetch_categories base (category # rest) all_symbols w =
     (case paginate base category JNull all_symbols (print (Fetching_category category) w) of
        (Inl e, w1) \<Rightarrow> (Inl e, w1)
      | (Inr all_symbols1, w1) \<Rightarrow> fetch_categories base rest all_symbols1 w1)"

definition bybit_get_exchange_info :: "string \<Rightarrow> world \<Rightarrow> (py_error + json) \<times> world" where
  "bybit_get_exchange_info base w =
     (case fetch_categories base [''spot'', ''linear'', ''inverse''] [] w of
        (Inl e, w1) \<Rightarrow> (Inl e, w1)
      | (Inr all_symbols, w1) \<Rightarrow>
          (Inr (JObj [(''result'', JObj [(''list'', JArr all_symbols)])]), w1))"

fun get_exchange_info :: "fetcher \<Rightarrow> world \<Rightarrow> (py_error + json) \<times> world" where
  "get_exchange_info BinanceSpotFetcher w =
     binance_get_exchange_info (base_url BinanceSpotFetcher @ ''/v3/exchangeInfo'') w"
| "get_exchange_info BinancePerpFetcher w =
     binance_get_exchange_info (base_url BinancePerpFetcher @ ''/fapi/v1/exchangeInfo'') w"
| "get_exchange_info BybitFetcher w = bybit_get_exchange_info (base_url BybitFetcher) w"

section \<open>Fetcher selection\<close>

text \<open>The dict \<^verbatim>\<open>fetchers\<close> of \<^verbatim>\<open>get_fetcher\<close>, in the order it is written.\<close>

definition fetchers :: "(string \<times> fetcher) list" where
  "fetchers =
     [(''binance'', BinanceSpotFetcher),
      (''binanceperp'', BinancePerpFetcher),
      (''bybit'', BybitFetcher)]"

text \<open>
  \<^verbatim>\<open>repr\<close> of a string without quotes, backslashes or unprintable characters
  (such are the keys of \<^verbatim>\<open>fetchers\<close>), and \<^verbatim>\<open>str\<close> of a list of such strings,
  as the f-string of the error message formats \<^verbatim>\<open>list(fetchers.keys())\<close>.
\<close>

definition repr_str :: "string \<Rightarrow> string" where
  "repr_str s = [CHR 0x27] @ s @ [CHR 0x27]"

fun join_comma :: "string list \<Rightarrow> string" where
  "join_comma [] = []"
| "join_comma [s] = s"
| "join_comma (s # rest) = s @ '', '' @ join_comma rest"

definition str_list :: "string list \<Rightarrow> string" where
  "str_list names = ''['' @ join_comma (map repr_str names) @ '']''"

definition unsupported_market :: "string \<Rightarrow> string" where
  "unsupported_market market =
     ''Unsupported market: '' @ market @ ''. Supported markets: '' @ str_list (map fst fetchers)"

definition get_fetcher :: "string \<Rightarrow> py_error + fetcher" where
  "get_fetcher market =
     (case map_of fetchers market of
        None \<Rightarrow> Inl (ValueError (unsupported_market market))
      | Some cls \<Rightarrow> Inr cls)"

section \<open>The record writer\<close>

subsection \<open>Paths\<close>

text \<open>
  \<^verbatim>\<open>os.path.dirname\<close> on POSIX: everything up to the last slash, with the
  trailing slashes of that head removed unless the head consists of slashes only.
\<close>

definition dirname :: "string \<Rightarrow> string" where
  "dirname p =
     (let head = rev (dropWhile (\<lambda>c. c \<noteq> CHR ''/'') (rev p))
      in if head \<noteq> [] \<and> head \<noteq> replicate (length head) CHR ''/''
         then rev (dropWhile (\<lambda>c. c = CHR ''/'') (rev head))
         else head)"

text \<open>
  How the operating system reads a path: it is split at the slashes, empty
  components are dropped, and the walk starts at the root for an absolute path
  and at the working directory for a relative one. A component \<^verbatim>\<open>.\<close> stays in
  the directory reached so far, \<^verbatim>\<open>..\<close> goes to the directory above it (the root
  is above itself), any other component goes to the entry of that name.
  Symbolic links are not modelled.
\<close>

fun split_slash :: "string \<Rightarrow> string list" where
  "split_slash [] = [[]]"
| "split_slash (c # cs) =
     (if c = CHR ''/'' then [] # split_slash cs
      else (case split_slash cs of
              [] \<Rightarrow> [[c]]
            | part # parts \<Rightarrow> (c # part) # parts))"

definition components :: "string \<Rightarrow> string list" where
  "components p = filter (\<lambda>part. part \<noteq> []) (split_slash p)"

definition is_abs :: "string \<Rightarrow> bool" where
  "is_abs p = (case p of [] \<Rightarrow> False | c # _ \<Rightarrow> c = CHR ''/'')"

definition start :: "world \<Rightarrow> string \<Rightarrow> string list" where
  "start w p = (if is_abs p then [] else cwd w)"

definition step :: "string list \<Rightarrow> string \<Rightarrow> string list" where
  "step cur c = (if c = ''.'' then cur else if c = ''..'' then butlast cur else cur @ [c])"

subsection \<open>File system calls\<close>

text \<open>
  \<^verbatim>\<open>os.makedirs(name, exist_ok=True)\<close> walks along the components of the name
  and makes every directory it names that is not there. It raises when a name on
  the way is a regular file: \<^verbatim>\<open>FileExistsError\<close> for the last component,
  \<^verbatim>\<open>NotADirectoryError\<close> for an earlier one; the directories made before stay.
  The components \<^verbatim>\<open>.\<close> and \<^verbatim>\<open>..\<close> make nothing.
\<close>

fun mkdir_walk :: "string list \<Rightarrow> string list \<Rightarrow> world \<Rightarrow> (py_error + unit) \<times> world" where
  "mkdir_walk cur [] w = (Inr (), w)"
| "mkdir_walk cur (c # cs) w =
     (if c = ''.'' \<or> c = ''..'' then mkdir_walk (step cur c) cs w
      else if cur @ [c] \<in> dom (files w)
        then (Inl (if cs = [] then FileExistsError else NotADirectoryError), w)
      else mkdir_walk (cur @ [c]) cs (w\<lparr>dirs := insert (cur @ [c]) (dirs w)\<rparr>))"

definition os_makedirs :: "string \<Rightarrow> world \<Rightarrow> (py_error + unit) \<times> world" where
  "os_makedirs name w =
     (if name = [] then (Inl FileNotFoundError, w)
      else (case os_refuses w name of
              Some e \<Rightarrow> (Inl e, w)
            | None \<Rightarrow> mkdir_walk (start w name) (components name) w))"

text \<open>
  The walk to an existing directory, as \<^verbatim>\<open>open\<close> makes it for the part of the
  path before the file name: every name on the way must be a directory.
\<close>

fun walk :: "world \<Rightarrow> string list \<Rightarrow> string list \<Rightarrow> py_error + string list" where
  "walk w cur [] = Inr cur"
| "walk w cur (c # cs) =
     (if c = ''.'' \<or> c = ''..'' then walk w (step cur c) cs
      else if cur @ [c] \<in> dirs w then walk w (cur @ [c]) cs
      else if cur @ [c] \<in> dom (files w) then Inl NotADirectoryError
      else Inl FileNotFoundError)"

text \<open>
  \<^verbatim>\<open>open(path, 'w')\<close>: creates the file or empties the one that is there, and
  returns the handle, here the place of the file in the tree. It raises when the
  path is empty, when the walk to the directory of the file fails, and when the
  path names a directory: by its last component being \<^verbatim>\<open>.\<close> or \<^verbatim>\<open>..\<close>, by a
  trailing slash, or by a directory being there.
\<close>

definition open_w :: "string \<Rightarrow> world \<Rightarrow> (py_error + string list) \<times> world" where
  "open_w p w =
     (if p = [] then (Inl FileNotFoundError, w)
      else (case os_refuses w p of
              Some e \<Rightarrow> (Inl e, w)
            | None \<Rightarrow>
                if components p = [] then (Inl IsADirectoryError, w)
                else (case walk w (start w p) (butlast (components p)) of
                        Inl e \<Rightarrow> (Inl e, w)
                      | Inr parent \<Rightarrow>
                          (let name = last (components p); target = parent @ [name]
                           in if name = ''.'' \<or> name = ''..'' then (Inl IsADirectoryError, w)
                              else if target \<in> dirs w then (Inl IsADirectoryError, w)
                              else if last p = CHR ''/''
                                then (if target \<in> dom (files w)
                                      then (Inl NotADirectoryError, w)
                                      else (Inl IsADirectoryError, w))
                              else (Inr target, w\<lparr>files := (files w)(target \<mapsto> [])\<rparr>)))))"

subsection \<open>The CSV writer\<close>

definition fieldnames :: "string list" where
  "fieldnames = [''symbol'', ''base'', ''quote'', ''instrument'', ''priceTick'', ''szTick'']"

text \<open>\<^verbatim>\<open>csv.writer.writerow\<close>: one more row at the end of the open file.\<close>

definition writerow :: "string list \<Rightarrow> json list \<Rightarrow> world \<Rightarrow> world" where
  "writerow csvfile row w =
     w\<lparr>files := (files w)(csvfile \<mapsto> (case files w csvfile of None \<Rightarrow> [] | Some rows \<Rightarrow> rows) @ [row])\<rparr>"

definition writeheader :: "string list \<Rightarrow> world \<Rightarrow> world" where
  "writeheader csvfile w = writerow csvfile (map JStr fieldnames) w"

text \<open>
  \<^verbatim>\<open>DictWriter._dict_to_list\<close>: a dict with a key that is no field name raises
  \<^verbatim>\<open>ValueError\<close> (the message names the keys, which is left out here);
  otherwise the row is the value of each field name in turn, the empty string for
  a field the dict lacks.
\<close>

definition row_of :: "dict \<Rightarrow> json list" where
  "row_of rowdict =
     map (\<lambda>key. case map_of rowdict key of None \<Rightarrow> JStr '''' | Some v \<Rightarrow> v) fieldnames"

definition dict_to_list :: "dict \<Rightarrow> py_error + json list" where
  "dict_to_list rowdict =
     (if \<exists>key \<in> set (map fst rowdict). key \<notin> set fieldnames
      then Inl (ValueError ''dict contains fields not in fieldnames'')
      else Inr (row_of rowdict))"

text \<open>
  \<^verbatim>\<open>DictWriter.writerows\<close> converts and writes one dict after the other, so the
  rows before a bad dict are in the file when the exception is raised.
\<close>

fun writerows :: "string list \<Rightarrow> dict list \<Rightarrow> world \<Rightarrow> (py_error + unit) \<times> world" where
  "writerows csvfile [] w = (Inr (), w)"
| "writerows csvfile (rowdict # rest) w =
     (case dict_to_list rowdict of
        Inl e \<Rightarrow> (Inl e, w)
      | Inr row \<Rightarrow> writerows csvfile rest (writerow csvfile row w))"

definition write_csv :: "dict list \<Rightarrow> string \<Rightarrow> world \<Rightarrow> (py_error + unit) \<times> world" where
  "write_csv symbols output_path w =
     (let output_dir = dirname output_path
      in case (if output_dir \<noteq> [] then os_makedirs output_dir w else (Inr (), w)) of
           (Inl e, w1) \<Rightarrow> (Inl e, w1)
         | (Inr _, w1) \<Rightarrow>
             (case open_w output_path w1 of
                (Inl e, w2) \<Rightarrow> (Inl e, w2)
              | (Inr csvfile, w2) \<Rightarrow>
                  (case writerows csvfile symbols (writeheader csvfile w2) of
                     (Inl e, w3) \<Rightarrow> (Inl e, w3)
                   | (Inr _, w3) \<Rightarrow>
                       (Inr (), print (Successfully_wrote (length symbols) output_path) w3))))"

section \<open>The orchestrator\<close>

text \<open>
  The body of the \<^verbatim>\<open>try\<close> statement of \<^verbatim>\<open>main\<close>: select the fetcher, fetch,
  parse, write.
\<close>

definition main_try :: "string \<Rightarrow> string \<Rightarrow> world \<Rightarrow> (py_error + unit) \<times> world" where
  "main_try market dst w =
     (case get_fetcher market of
        Inl e \<Rightarrow> (Inl e, w)
      | Inr fetcher \<Rightarrow>
          (case get_exchange_info fetcher (print (Fetching_exchange_info market) w) of
             (Inl e, w1) \<Rightarrow> (Inl e, w1)
           | (Inr exchange_info, w1) \<Rightarrow>
               (case parse_symbols fetcher exchange_info of
                  Inl e \<Rightarrow> (Inl e, print Parsing_symbols w1)
                | Inr symbols \<Rightarrow>
                    write_csv symbols dst
                      (print (Found (length symbols)) (print Parsing_symbols w1)))))"

text \<open>
  \<^verbatim>\<open>main\<close>, given the two values \<^verbatim>\<open>argparse\<close> reads from the command line: the
  positional argument \<^verbatim>\<open>market\<close> and the option \<^verbatim>\<open>--dst\<close> (\<open>None\<close> when it is
  not given). \<^verbatim>\<open>argparse\<close> rejects a market outside \<^verbatim>\<open>choices\<close> by exiting with
  status 2. The result is the exit status of the process and the world it leaves.
\<close>

definition choices :: "string list" where
  "choices = [''binance'', ''binanceperp'', ''bybit'']"

definition main :: "string \<Rightarrow> string option \<Rightarrow> world \<Rightarrow> nat \<times> world" where
  "main market dst_arg w =
     (if market \<notin> set choices then (2, print_stderr (Invalid_choice market) w)
      else
        (let dst = (case dst_arg of None \<Rightarrow> ''artifact/'' @ market @ ''.csv'' | Some d \<Rightarrow> d)
         in case main_try market dst w of
              (Inr _, w1) \<Rightarrow> (0, w1)
            | (Inl e, w1) \<Rightarrow>
                if is_RequestException e then (1, print_stderr (Error_fetching_data e) w1)
                else (1, print_stderr (Error_line e) w1)))"

section \<open>The parsers as one loop over the instruments\<close>

text \<open>
  The three \<^verbatim>\<open>parse_symbols\<close> methods have the same shape: a list of instruments
  is taken out of the payload and a loop body runs on each of them. \<open>instruments\<close>
  is that list, \<open>symbol_records\<close> the loop body, and \<open>active_marker\<close> the string
  the loop body compares the status with.
\<close>

fun instruments :: "fetcher \<Rightarrow> json \<Rightarrow> py_error + json list" where
  "instruments BybitFetcher exchange_info =
     (case py_get exchange_info ''result'' (JObj []) of
        Inl e \<Rightarrow> Inl e
      | Inr result \<Rightarrow>
          (case py_get result ''list'' (JArr []) of
             Inl e \<Rightarrow> Inl e
           | Inr listed \<Rightarrow> py_iter listed))"
| "instruments _ exchange_info =
     (case py_get exchange_info ''symbols'' (JArr []) of
        Inl e \<Rightarrow> Inl e
      | Inr listed \<Rightarrow> py_iter listed)"

fun symbol_records :: "fetcher \<Rightarrow> json \<Rightarrow> py_error + dict list" where
  "symbol_records BinanceSpotFetcher = binance_symbol ''spot''"
| "symbol_records BinancePerpFetcher = binance_symbol ''perp''"
| "symbol_records BybitFetcher = bybit_symbol"

fun active_marker :: "fetcher \<Rightarrow> string" where
  "active_marker BinanceSpotFetcher = ''TRADING''"
| "active_marker BinancePerpFetcher = ''TRADING''"
| "active_marker BybitFetcher = ''Trading''"

text \<open>A spot payload whose only instrument has the status \<^verbatim>\<open>BREAK\<close>.\<close>

definition break_payload :: json where
  "break_payload =
     JObj [(''symbols'',
       JArr [JObj [(''symbol'', JStr ''BTCUSDT''), (''status'', JStr ''BREAK''),
                   (''baseAsset'', JStr ''BTC''), (''quoteAsset'', JStr ''USDT''),
                   (''filters'',
                      JArr [JObj [(''filterType'', JStr ''PRICE_FILTER''), (''tickSize'', JStr ''0.01'')],
                            JObj [(''filterType'', JStr ''LOT_SIZE''), (''stepSize'', JStr ''0.00001'')]])]])]"

text \<open>The keys under which an instrument carries its base and quote asset.\<close>

fun base_key :: "fetcher \<Rightarrow> string" where
  "base_key BybitFetcher = ''baseCoin''"
| "base_key _ = ''baseAsset''"

fun quote_key :: "fetcher \<Rightarrow> string" where
  "quote_key BybitFetcher = ''quoteCoin''"
| "quote_key _ = ''quoteAsset''"

subsection \<open>Sample payloads\<close>

text \<open>
  A Bybit payload with a linear, a spot, an inverse and an option instrument, and
  the records parsed from it.
\<close>

definition bybit_payload :: json where
  "bybit_payload =
     JObj [(''result'', JObj [(''list'',
       JArr [JObj [(''symbol'', JStr ''BTCUSDT''), (''status'', JStr ''Trading''),
                   (''baseCoin'', JStr ''BTC''), (''quoteCoin'', JStr ''USDT''),
                   (''priceFilter'', JObj [(''tickSize'', JStr ''0.10'')]),
                   (''lotSizeFilter'',
                      JObj [(''qtyStep'', JStr ''0.001''), (''basePrecision'', JStr ''0.000001'')]),
                   (''category'', JStr ''linear'')],
             JObj [(''symbol'', JStr ''ETHUSDT''), (''status'', JStr ''Trading''),
                   (''baseCoin'', JStr ''ETH''), (''quoteCoin'', JStr ''USDT''),
                   (''priceFilter'', JObj [(''tickSize'', JStr ''0.01'')]),
                   (''lotSizeFilter'',
                      JObj [(''basePrecision'', JStr ''0.0001''), (''qtyStep'', JStr ''0.1'')]),
                   (''category'', JStr ''spot'')],
             JObj [(''symbol'', JStr ''BTCUSD''), (''status'', JStr ''Trading''),
                   (''baseCoin'', JStr ''BTC''), (''quoteCoin'', JStr ''USD''),
                   (''priceFilter'', JObj [(''tickSize'', JStr ''0.50'')]),
                   (''lotSizeFilter'', JObj [(''qtyStep'', JStr ''1'')]),
                   (''category'', JStr ''inverse'')],
             JObj [(''symbol'', JStr ''BTC-26DEC''), (''status'', JStr ''Trading''),
                   (''baseCoin'', JStr ''BTC''), (''quoteCoin'', JStr ''USD''),
                   (''priceFilter'', JObj [(''tickSize'', JStr ''5'')]),
                   (''lotSizeFilter'', JObj [(''basePrecision'', JStr ''0.01'')]),
                   (''category'', JStr ''option'')]])])]"

definition bybit_records :: "dict list" where
  "bybit_records =
     [[(''symbol'', JStr ''BTCUSDT''), (''base'', JStr ''BTC''), (''quote'', JStr ''USDT''),
       (''instrument'', JStr ''perp''), (''priceTick'', JStr ''0.10''), (''szTick'', JStr ''0.001'')],
      [(''symbol'', JStr ''ETHUSDT''), (''base'', JStr ''ETH''), (''quote'', JStr ''USDT''),
       (''instrument'', JStr ''spot''), (''priceTick'', JStr ''0.01''), (''szTick'', JStr ''0.0001'')],
      [(''symbol'', JStr ''BTCUSD''), (''base'', JStr ''BTC''), (''quote'', JStr ''USD''),
       (''instrument'', JStr ''inverse''), (''priceTick'', JStr ''0.50''), (''szTick'', JStr ''1'')],
      [(''symbol'', JStr ''BTC-26DEC''), (''base'', JStr ''BTC''), (''quote'', JStr ''USD''),
       (''instrument'', JStr ''option''), (''priceTick'', JStr ''5''), (''szTick'', JStr ''0.01'')]]"

text \<open>A perpetual payload whose instrument lists both filter types twice.\<close>

definition duplicate_filters_payload :: json where
  "duplicate_filters_payload =
     JObj [(''symbols'',
       JArr [JObj [(''symbol'', JStr ''BTCUSDT''), (''status'', JStr ''TRADING''),
                   (''baseAsset'', JStr ''BTC''), (''quoteAsset'', JStr ''USDT''),
                   (''filters'',
                      JArr [JObj [(''filterType'', JStr ''PRICE_FILTER''), (''tickSize'', JStr ''0.01'')],
                            JObj [(''filterType'', JStr ''LOT_SIZE''), (''stepSize'', JStr ''0.1'')],
                            JObj [(''filterType'', JStr ''PRICE_FILTER''), (''tickSize'', JStr ''0.05'')],
                            JObj [(''filterType'', JStr ''LOT_SIZE''), (''stepSize'', JStr ''0.2'')]])]])]"

definition duplicate_filters_records :: "dict list" where
  "duplicate_filters_records =
     [[(''symbol'', JStr ''BTCUSDT''), (''base'', JStr ''BTC''), (''quote'', JStr ''USDT''),
       (''instrument'', JStr ''perp''), (''priceTick'', JStr ''0.05''), (''szTick'', JStr ''0.2'')]]"

text \<open>
  A Bybit payload whose instrument has neither a price filter nor a lot-size
  filter, and a spot payload whose instrument has empty names and filters without
  a tick or step size.
\<close>

definition unresolved_ticks_payload :: json where
  "unresolved_ticks_payload =
     JObj [(''result'', JObj [(''list'',
       JArr [JObj [(''symbol'', JStr ''BTCUSDT''), (''status'', JStr ''Trading''),
                   (''baseCoin'', JStr ''BTC''), (''quoteCoin'', JStr ''USDT''),
                   (''category'', JStr ''spot'')]])])]"

definition empty_names_payload :: json where
  "empty_names_payload =
     JObj [(''symbols'',
       JArr [JObj [(''symbol'', JStr ''''), (''status'', JStr ''TRADING''),
                   (''baseAsset'', JStr ''''), (''quoteAsset'', JStr ''''),
                   (''filters'',
                      JArr [JObj [(''filterType'', JStr ''PRICE_FILTER'')],
                            JObj [(''filterType'', JStr ''LOT_SIZE'')]])]])]"

definition empty_names_records :: "dict list" where
  "empty_names_records =
     [[(''symbol'', JStr ''''), (''base'', JStr ''''), (''quote'', JStr ''''),
       (''instrument'', JStr ''spot''), (''priceTick'', JStr ''''), (''szTick'', JStr '''')]]"

subsection \<open>Scripted Bybit pages\<close>

text \<open>
  A page is a list of instruments (dicts) and a next-cursor value. \<open>is_page\<close>
  says that a decoded response carries them: the instruments as the list under
  \<^verbatim>\<open>result.list\<close>, the cursor under \<^verbatim>\<open>result.nextPageCursor\<close> (\<^verbatim>\<open>None\<close>
  when the key is missing). \<open>serves\<close> says that a list of answers delivers a list
  of pages, one response without an error status per page. \<open>category_run\<close> is
  the shape of the pages of one category: every page but the last has a true
  cursor and at least one instrument, and the last has a false cursor or no
  instrument. \<open>tagged\<close> sets the category of every instrument.
\<close>

definition is_page :: "json \<Rightarrow> dict list \<Rightarrow> json \<Rightarrow> bool" where
  "is_page data symbols next_cursor \<longleftrightarrow>
     (\<exists>kvs result.
        data = JObj kvs \<and> map_of kvs ''result'' = Some (JObj result) \<and>
        map_of result ''list'' = Some (JArr (map JObj symbols)) \<and>
        next_cursor = (case map_of result ''nextPageCursor'' of None \<Rightarrow> JNull | Some c \<Rightarrow> c))"

definition serves :: "http_result list \<Rightarrow> (dict list \<times> json) list \<Rightarrow> bool" where
  "serves answers pages \<longleftrightarrow>
     list_all2 (\<lambda>answer page. \<exists>code data.
                  answer = Http_response code data \<and> \<not> (400 \<le> code \<and> code < 600) \<and>
                  is_page data (fst page) (snd page))
       answers pages"

definition category_run :: "(dict list \<times> json) list \<Rightarrow> bool" where
  "category_run pages \<longleftrightarrow>
     pages \<noteq> [] \<and>
     (\<forall>page \<in> set (butlast pages). truthy (snd page) \<and> fst page \<noteq> []) \<and>
     (\<not> truthy (snd (last pages)) \<or> fst (last pages) = [])"

definition tagged :: "string \<Rightarrow> dict list \<Rightarrow> json list" where
  "tagged category symbols =
     map (\<lambda>symbol. JObj (AList.update ''category'' (JStr category) symbol)) symbols"

text \<open>
  A sample script: two spot pages (the first with the cursor \<^verbatim>\<open>page2\<close>, the
  second without a cursor), one linear page that has a cursor but no instrument,
  one inverse page with an empty cursor, and then a failing answer. The pages
  are also given as lists of instruments and cursors.
\<close>

definition sample_world :: world where
  "sample_world =
     \<lparr>script =
        [Http_response 200
           (JObj [(''retCode'', JInt 0),
                  (''result'',
                     JObj [(''list'', JArr [JObj [(''symbol'', JStr ''BTCUSDT''),
                                                 (''status'', JStr ''Trading'')]]),
                           (''nextPageCursor'', JStr ''page2'')])]),
         Http_response 200
           (JObj [(''retCode'', JInt 0),
                  (''result'',
                     JObj [(''list'', JArr [JObj [(''symbol'', JStr ''ETHUSDT''),
                                                 (''status'', JStr ''Trading'')]])])]),
         Http_response 200
           (JObj [(''retCode'', JInt 0),
                  (''result'',
                     JObj [(''list'', JArr []), (''nextPageCursor'', JStr ''more'')])]),
         Http_response 200
           (JObj [(''retCode'', JInt 0),
                  (''result'',
                     JObj [(''list'', JArr [JObj [(''symbol'', JStr ''BTCUSD''),
                                                 (''category'', JStr ''old'')]]),
                           (''nextPageCursor'', JStr '''')])]),
         Transport_failure],
      sent = [], cwd = [''home''], dirs = {[], [''home'']}, files = Map.empty,
      os_refuses = (\<lambda>p. None), stdout = [], stderr = []\<rparr>"

definition sample_spot_pages :: "(dict list \<times> json) list" where
  "sample_spot_pages =
     [([[(''symbol'', JStr ''BTCUSDT''), (''status'', JStr ''Trading'')]], JStr ''page2''),
      ([[(''symbol'', JStr ''ETHUSDT''), (''status'', JStr ''Trading'')]], JNull)]"

definition sample_linear_pages :: "(dict list \<times> json) list" where
  "sample_linear_pages = [([], JStr ''more'')]"

definition sample_inverse_pages :: "(dict list \<times> json) list" where
  "sample_inverse_pages =
     [([[(''symbol'', JStr ''BTCUSD''), (''category'', JStr ''old'')]], JStr '''')]"

subsection \<open>Where a path leads\<close>

text \<open>
  \<open>resolve\<close> is the place in the tree that a path names: the end of the walk
  along all its components. \<open>on_the_way\<close> lists the directories that the
  components before the last one name, in the order of the walk; these are the
  directories that must be there, or be made, before the file can be opened.
\<close>

definition resolve :: "world \<Rightarrow> string \<Rightarrow> string list" where
  "resolve w p = foldl step (start w p) (components p)"

fun made :: "string list \<Rightarrow> string list \<Rightarrow> string list list" where
  "made cur [] = []"
| "made cur (c # cs) =
     (if c = ''.'' \<or> c = ''..'' then made (step cur c) cs
      else (cur @ [c]) # made (cur @ [c]) cs)"

definition on_the_way :: "world \<Rightarrow> string \<Rightarrow> string list list" where
  "on_the_way w p = made (start w p) (butlast (components p))"

subsection \<open>A sample file system\<close>

text \<open>
  A world whose working directory \<^verbatim>\<open>/home\<close> holds one file and no directory
  \<^verbatim>\<open>artifact\<close>, and where the operating system refuses no path.
\<close>

definition sample_fs :: world where
  "sample_fs =
     \<lparr>script = [], sent = [], cwd = [''home''], dirs = {[], [''home'']},
      files = [[''home'', ''old.csv''] \<mapsto> [[JStr ''symbol'']]],
      os_refuses = (\<lambda>p. None), stdout = [], stderr = []\<rparr>"

text \<open>
  Two runs that fail: in the first the only HTTP call fails in transport, in the
  second it is answered with a JSON list where the parser expects an object.
\<close>

definition offline_world :: world where
  "offline_world = sample_fs\<lparr>script := [Transport_failure]\<rparr>"

definition garbled_world :: world where
  "garbled_world = sample_fs\<lparr>script := [Http_response 200 (JArr [])]\<rparr>"

section \<open>Properties of the parsers\<close>

subsection \<open>A successful parse, instrument by instrument\<close>

lemma for_each_Inr:
  "for_each body infos acc = Inr symbols \<longleftrightarrow>
     (\<exists>outs. list_all2 (\<lambda>info out. body info = Inr out) infos outs \<and> symbols = acc @ concat outs)"
proof (induction infos arbitrary: acc)
  case Nil
  then show ?case by auto
next
  case (Cons info infos)
  show ?case
  proof (cases "body info")
    case (Inl e)
    then show ?thesis by (auto simp: list_all2_Cons1)
  next
    case (Inr out)
    then show ?thesis by (auto simp: Cons.IH list_all2_Cons1)
  qed
qed

lemma parse_symbols_for_each:
  "parse_symbols f exchange_info =
     (case instruments f exchange_info of
        Inl e \<Rightarrow> Inl e
      | Inr infos \<Rightarrow> for_each (symbol_records f) infos [])"
  by (cases f) (auto simp: binance_parse_symbols_def bybit_parse_symbols_def split: sum.splits)

lemma parse_symbols_Inr:
  "parse_symbols f exchange_info = Inr symbols \<longleftrightarrow>
     (\<exists>infos outs. instruments f exchange_info = Inr infos \<and>
        list_all2 (\<lambda>info out. symbol_records f info = Inr out) infos outs \<and>
        symbols = concat outs)"
  by (auto simp: parse_symbols_for_each for_each_Inr split: sum.splits)

subsection \<open>The status filter\<close>

lemma binance_symbol_inactive:
  "binance_symbol instrument info = Inr out \<Longrightarrow>
   py_get info ''status'' JNull \<noteq> Inr (JStr ''TRADING'') \<Longrightarrow> out = []"
  unfolding binance_symbol_def by (cases "py_get info ''status'' JNull") (auto split: if_splits)

lemma bybit_symbol_inactive:
  "bybit_symbol info = Inr out \<Longrightarrow>
   py_get info ''status'' JNull \<noteq> Inr (JStr ''Trading'') \<Longrightarrow> out = []"
  unfolding bybit_symbol_def by (cases "py_get info ''status'' JNull") (auto split: if_splits)

lemma symbol_records_inactive:
  "symbol_records f info = Inr out \<Longrightarrow>
   py_get info ''status'' JNull \<noteq> Inr (JStr (active_marker f)) \<Longrightarrow> out = []"
  by (cases f) (auto dest: binance_symbol_inactive bybit_symbol_inactive)

text \<open>
  Claim C6. Whenever a parse succeeds, its result is the concatenation of what the
  loop body appended for each instrument of the payload, in order, and for an
  instrument whose status is not the active-trading marker of the fetcher
  (\<^verbatim>\<open>TRADING\<close> for the two Binance variants, \<^verbatim>\<open>Trading\<close> for Bybit, compared as
  strings, so case matters) the loop body appended nothing.
\<close>

theorem inactive_status_never_emitted:
  assumes "parse_symbols f exchange_info = Inr symbols"
  shows "\<exists>infos outs.
           instruments f exchange_info = Inr infos \<and> symbols = concat outs \<and>
           list_all2 (\<lambda>info out. symbol_records f info = Inr out \<and>
                        (py_get info ''status'' JNull \<noteq> Inr (JStr (active_marker f)) \<longrightarrow> out = []))
             infos outs"
proof -
  from assms obtain infos outs where
    i: "instruments f exchange_info = Inr infos" and
    l: "list_all2 (\<lambda>info out. symbol_records f info = Inr out) infos outs" and
    c: "symbols = concat outs"
    unfolding parse_symbols_Inr by blast
  from l have "list_all2 (\<lambda>info out. symbol_records f info = Inr out \<and>
                 (py_get info ''status'' JNull \<noteq> Inr (JStr (active_marker f)) \<longrightarrow> out = []))
                 infos outs"
    by (rule list_all2_mono) (blast dest: symbol_records_inactive)
  with i c show ?thesis by blast
qed

text \<open>
  The theorem at the spot payload with one \<^verbatim>\<open>BREAK\<close> instrument: the parse
  succeeds with no record.
\<close>

theorem inactive_status_never_emitted_witness:
  "parse_symbols BinanceSpotFetcher break_payload = Inr [] \<and>
   (\<exists>infos outs.
      instruments BinanceSpotFetcher break_payload = Inr infos \<and> [] = concat outs \<and>
      list_all2 (\<lambda>info out. symbol_records BinanceSpotFetcher info = Inr out \<and>
                   (py_get info ''status'' JNull \<noteq> Inr (JStr (active_marker BinanceSpotFetcher))
                      \<longrightarrow> out = []))
        infos outs)"
proof -
  have h: "parse_symbols BinanceSpotFetcher break_payload = Inr []"
    by (simp add: break_payload_def binance_parse_symbols_def binance_symbol_def)
  show ?thesis
    using h inactive_status_never_emitted [OF h] by simp
qed

subsection \<open>What a record is made from\<close>

lemma bybit_symbol_Inr:
  assumes "bybit_symbol info = Inr out" "r \<in> set out"
  obtains price lot category sz_tick symbol base quote price_tick where
    "py_get info ''status'' JNull = Inr (JStr ''Trading'')"
    "py_get info ''priceFilter'' (JObj []) = Inr price"
    "py_get info ''lotSizeFilter'' (JObj []) = Inr lot"
    "py_get info ''category'' (JStr ''spot'') = Inr category"
    "bybit_sz_tick category lot = Inr sz_tick"
    "py_item info ''symbol'' = Inr symbol"
    "py_item info ''baseCoin'' = Inr base"
    "py_item info ''quoteCoin'' = Inr quote"
    "py_get price ''tickSize'' (JStr '''') = Inr price_tick"
    "r = [(''symbol'', symbol), (''base'', base), (''quote'', quote),
          (''instrument'', bybit_instrument category),
          (''priceTick'', price_tick), (''szTick'', sz_tick)]"
  using assms unfolding bybit_symbol_def
  by (simp split: sum.splits if_splits) auto

lemma scan_filters_last:
  "scan_filters filter_list price_filter qty_filter = Inr (pf, qf) \<Longrightarrow>
   pf = last (price_filter #
          filter (\<lambda>fi. py_item fi ''filterType'' = Inr (JStr ''PRICE_FILTER'')) filter_list) \<and>
   qf = last (qty_filter #
          filter (\<lambda>fi. py_item fi ''filterType'' = Inr (JStr ''LOT_SIZE'')) filter_list)"
proof (induction filter_list arbitrary: price_filter qty_filter)
  case Nil
  then show ?case by simp
next
  case (Cons fi rest)
  show ?case
  proof (cases "py_item fi ''filterType''")
    case (Inl e)
    with Cons.prems show ?thesis by simp
  next
    case (Inr t)
    with Cons.prems Cons.IH show ?thesis
      by (auto split: if_splits)
  qed
qed

lemma binance_symbol_Inr:
  assumes "binance_symbol instrument info = Inr out" "r \<in> set out"
  obtains filters filter_list price_filter qty_filter symbol base quote price_tick sz_tick where
    "py_get info ''status'' JNull = Inr (JStr ''TRADING'')"
    "py_get info ''filters'' (JArr []) = Inr filters"
    "py_iter filters = Inr filter_list"
    "scan_filters filter_list JNull JNull = Inr (price_filter, qty_filter)"
    "truthy price_filter" "truthy qty_filter"
    "py_item info ''symbol'' = Inr symbol"
    "py_item info ''baseAsset'' = Inr base"
    "py_item info ''quoteAsset'' = Inr quote"
    "py_get price_filter ''tickSize'' (JStr '''') = Inr price_tick"
    "py_get qty_filter ''stepSize'' (JStr '''') = Inr sz_tick"
    "r = [(''symbol'', symbol), (''base'', base), (''quote'', quote),
          (''instrument'', JStr instrument),
          (''priceTick'', price_tick), (''szTick'', sz_tick)]"
  using assms unfolding binance_symbol_def
  by (simp split: sum.splits if_splits prod.splits) auto

lemma last_filter_truthy:
  "truthy (last (JNull # filter P xs)) \<Longrightarrow> filter P xs \<noteq> [] \<and> last (JNull # filter P xs) = last (filter P xs)"
  by (cases "filter P xs") auto

lemma last_filter_mem:
  "filter P xs \<noteq> [] \<Longrightarrow> last (filter P xs) \<in> set xs \<and> P (last (filter P xs))"
  using last_in_set [of "filter P xs"] by auto

lemma list_all2_parse:
  assumes "parse_symbols f exchange_info = Inr symbols"
    and "\<And>info out. symbol_records f info = Inr out \<Longrightarrow> P info out"
  shows "\<exists>infos outs.
           instruments f exchange_info = Inr infos \<and> symbols = concat outs \<and>
           list_all2 (\<lambda>info out. symbol_records f info = Inr out \<and> P info out) infos outs"
proof -
  from assms(1) obtain infos outs where
    i: "instruments f exchange_info = Inr infos" and
    l: "list_all2 (\<lambda>info out. symbol_records f info = Inr out) infos outs" and
    c: "symbols = concat outs"
    unfolding parse_symbols_Inr by blast
  from l have "list_all2 (\<lambda>info out. symbol_records f info = Inr out \<and> P info out) infos outs"
    by (rule list_all2_mono) (simp add: assms(2))
  with i c show ?thesis by blast
qed

lemma bybit_payload_parsed: "parse_symbols BybitFetcher bybit_payload = Inr bybit_records"
  by (simp add: bybit_payload_def bybit_records_def bybit_parse_symbols_def bybit_symbol_def
        bybit_sz_tick_def bybit_instrument_def)

subsection \<open>Bybit: category and instrument\<close>

text \<open>
  Claim C8. Whenever the Bybit parse succeeds, every record emitted for an
  instrument has under \<^verbatim>\<open>instrument\<close> the image of the instrument's category
  (\<^verbatim>\<open>spot\<close> when the instrument has none): \<^verbatim>\<open>spot\<close> for \<^verbatim>\<open>spot\<close>, \<^verbatim>\<open>perp\<close> for
  \<^verbatim>\<open>linear\<close>, \<^verbatim>\<open>inverse\<close> for \<^verbatim>\<open>inverse\<close>, and any other category itself.
\<close>

theorem bybit_instrument_of_category:
  assumes "parse_symbols BybitFetcher exchange_info = Inr symbols"
  shows "\<exists>infos outs.
           instruments BybitFetcher exchange_info = Inr infos \<and> symbols = concat outs \<and>
           list_all2 (\<lambda>info out. symbol_records BybitFetcher info = Inr out \<and>
                        (\<forall>r \<in> set out. \<exists>category instrument.
                            py_get info ''category'' (JStr ''spot'') = Inr category \<and>
                            map_of r ''instrument'' = Some instrument \<and>
                            (category = JStr ''spot'' \<longrightarrow> instrument = JStr ''spot'') \<and>
                            (category = JStr ''linear'' \<longrightarrow> instrument = JStr ''perp'') \<and>
                            (category = JStr ''inverse'' \<longrightarrow> instrument = JStr ''inverse'') \<and>
                            (category \<notin> {JStr ''spot'', JStr ''linear'', JStr ''inverse''}
                               \<longrightarrow> instrument = category)))
             infos outs"
proof (rule list_all2_parse [OF assms], intro ballI)
  fix info out r
  assume b: "symbol_records BybitFetcher info = Inr out" and r: "r \<in> set out"
  from b have b': "bybit_symbol info = Inr out" by simp
  from bybit_symbol_Inr [OF b' r] obtain category price_tick sz_tick symbol base quote where
    c: "py_get info ''category'' (JStr ''spot'') = Inr category" and
    req: "r = [(''symbol'', symbol), (''base'', base), (''quote'', quote),
          (''instrument'', bybit_instrument category),
          (''priceTick'', price_tick), (''szTick'', sz_tick)]"
    by metis
  from req have i: "map_of r ''instrument'' = Some (bybit_instrument category)" by simp
  have m: "(category = JStr ''spot'' \<longrightarrow> bybit_instrument category = JStr ''spot'') \<and>
          (category = JStr ''linear'' \<longrightarrow> bybit_instrument category = JStr ''perp'') \<and>
          (category = JStr ''inverse'' \<longrightarrow> bybit_instrument category = JStr ''inverse'') \<and>
          (category \<notin> {JStr ''spot'', JStr ''linear'', JStr ''inverse''}
             \<longrightarrow> bybit_instrument category = category)"
    by (simp add: bybit_instrument_def)
  from c i m show "\<exists>category instrument.
          py_get info ''category'' (JStr ''spot'') = Inr category \<and>
          map_of r ''instrument'' = Some instrument \<and>
          (category = JStr ''spot'' \<longrightarrow> instrument = JStr ''spot'') \<and>
          (category = JStr ''linear'' \<longrightarrow> instrument = JStr ''perp'') \<and>
          (category = JStr ''inverse'' \<longrightarrow> instrument = JStr ''inverse'') \<and>
          (category \<notin> {JStr ''spot'', JStr ''linear'', JStr ''inverse''} \<longrightarrow> instrument = category)"
    by blast
qed

text \<open>
  The theorem at the sample payload with a linear, a spot, an inverse and an option
  instrument.
\<close>

theorem bybit_instrument_of_category_witness:
  "parse_symbols BybitFetcher bybit_payload = Inr bybit_records \<and>
   (\<exists>infos outs.
           instruments BybitFetcher bybit_payload = Inr infos \<and> bybit_records = concat outs \<and>
           list_all2 (\<lambda>info out. symbol_records BybitFetcher info = Inr out \<and>
                        (\<forall>r \<in> set out. \<exists>category instrument.
                            py_get info ''category'' (JStr ''spot'') = Inr category \<and>
                            map_of r ''instrument'' = Some instrument \<and>
                            (category = JStr ''spot'' \<longrightarrow> instrument = JStr ''spot'') \<and>
                            (category = JStr ''linear'' \<longrightarrow> instrument = JStr ''perp'') \<and>
                            (category = JStr ''inverse'' \<longrightarrow> instrument = JStr ''inverse'') \<and>
                            (category \<notin> {JStr ''spot'', JStr ''linear'', JStr ''inverse''}
                               \<longrightarrow> instrument = category)))
             infos outs)"
proof -
  have h: "parse_symbols BybitFetcher bybit_payload = Inr bybit_records"
    by (rule bybit_payload_parsed)
  show ?thesis
    using h bybit_instrument_of_category [OF h] by (intro conjI) assumption+
qed

subsection \<open>Bybit: where the ticks come from\<close>

text \<open>
  Claim C7. Whenever the Bybit parse succeeds, every record emitted for an
  instrument has under \<^verbatim>\<open>priceTick\<close> the \<^verbatim>\<open>tickSize\<close> of the instrument's
  \<^verbatim>\<open>priceFilter\<close>, and under \<^verbatim>\<open>szTick\<close> the \<^verbatim>\<open>qtyStep\<close> of its
  \<^verbatim>\<open>lotSizeFilter\<close> when the category is \<^verbatim>\<open>linear\<close> or \<^verbatim>\<open>inverse\<close>, and the
  \<^verbatim>\<open>basePrecision\<close> of its \<^verbatim>\<open>lotSizeFilter\<close> when the category is \<^verbatim>\<open>spot\<close>
  (a field that is missing reads as the empty string).
\<close>

theorem bybit_ticks:
  assumes "parse_symbols BybitFetcher exchange_info = Inr symbols"
  shows "\<exists>infos outs.
           instruments BybitFetcher exchange_info = Inr infos \<and> symbols = concat outs \<and>
           list_all2 (\<lambda>info out. symbol_records BybitFetcher info = Inr out \<and>
                        (\<forall>r \<in> set out. \<exists>category price lot price_tick sz_tick.
                            py_get info ''category'' (JStr ''spot'') = Inr category \<and>
                            py_get info ''priceFilter'' (JObj []) = Inr price \<and>
                            py_get info ''lotSizeFilter'' (JObj []) = Inr lot \<and>
                            map_of r ''priceTick'' = Some price_tick \<and>
                            map_of r ''szTick'' = Some sz_tick \<and>
                            py_get price ''tickSize'' (JStr '''') = Inr price_tick \<and>
                            (category = JStr ''linear'' \<or> category = JStr ''inverse''
                               \<longrightarrow> py_get lot ''qtyStep'' (JStr '''') = Inr sz_tick) \<and>
                            (category = JStr ''spot''
                               \<longrightarrow> py_get lot ''basePrecision'' (JStr '''') = Inr sz_tick)))
             infos outs"
proof (rule list_all2_parse [OF assms], intro ballI)
  fix info out r
  assume b: "symbol_records BybitFetcher info = Inr out" and r: "r \<in> set out"
  from b have b': "bybit_symbol info = Inr out" by simp
  from bybit_symbol_Inr [OF b' r] obtain price lot category sz_tick symbol base quote price_tick where
    c: "py_get info ''category'' (JStr ''spot'') = Inr category" and
    p: "py_get info ''priceFilter'' (JObj []) = Inr price" and
    l: "py_get info ''lotSizeFilter'' (JObj []) = Inr lot" and
    s: "bybit_sz_tick category lot = Inr sz_tick" and
    t: "py_get price ''tickSize'' (JStr '''') = Inr price_tick" and
    req: "r = [(''symbol'', symbol), (''base'', base), (''quote'', quote),
          (''instrument'', bybit_instrument category),
          (''priceTick'', price_tick), (''szTick'', sz_tick)]"
    by metis
  from req have pt: "map_of r ''priceTick'' = Some price_tick"
    and st: "map_of r ''szTick'' = Some sz_tick" by simp_all
  from s have q: "category = JStr ''linear'' \<or> category = JStr ''inverse''
             \<longrightarrow> py_get lot ''qtyStep'' (JStr '''') = Inr sz_tick"
    and bp: "category = JStr ''spot'' \<longrightarrow> py_get lot ''basePrecision'' (JStr '''') = Inr sz_tick"
    by (auto simp: bybit_sz_tick_def split: if_splits)
  from c p l pt st t q bp show "\<exists>category price lot price_tick sz_tick.
          py_get info ''category'' (JStr ''spot'') = Inr category \<and>
          py_get info ''priceFilter'' (JObj []) = Inr price \<and>
          py_get info ''lotSizeFilter'' (JObj []) = Inr lot \<and>
          map_of r ''priceTick'' = Some price_tick \<and>
          map_of r ''szTick'' = Some sz_tick \<and>
          py_get price ''tickSize'' (JStr '''') = Inr price_tick \<and>
          (category = JStr ''linear'' \<or> category = JStr ''inverse''
             \<longrightarrow> py_get lot ''qtyStep'' (JStr '''') = Inr sz_tick) \<and>
          (category = JStr ''spot''
             \<longrightarrow> py_get lot ''basePrecision'' (JStr '''') = Inr sz_tick)"
    by blast
qed

text \<open>
  The theorem at the sample payload: the linear instrument with \<^verbatim>\<open>qtyStep\<close>
  \<^verbatim>\<open>0.001\<close> and the spot instrument with \<^verbatim>\<open>basePrecision\<close> \<^verbatim>\<open>0.0001\<close>.
\<close>

theorem bybit_ticks_witness:
  "parse_symbols BybitFetcher bybit_payload = Inr bybit_records \<and>
   (\<exists>infos outs.
           instruments BybitFetcher bybit_payload = Inr infos \<and> bybit_records = concat outs \<and>
           list_all2 (\<lambda>info out. symbol_records BybitFetcher info = Inr out \<and>
                        (\<forall>r \<in> set out. \<exists>category price lot price_tick sz_tick.
                            py_get info ''category'' (JStr ''spot'') = Inr category \<and>
                            py_get info ''priceFilter'' (JObj []) = Inr price \<and>
                            py_get info ''lotSizeFilter'' (JObj []) = Inr lot \<and>
                            map_of r ''priceTick'' = Some price_tick \<and>
                            map_of r ''szTick'' = Some sz_tick \<and>
                            py_get price ''tickSize'' (JStr '''') = Inr price_tick \<and>
                            (category = JStr ''linear'' \<or> category = JStr ''inverse''
                               \<longrightarrow> py_get lot ''qtyStep'' (JStr '''') = Inr sz_tick) \<and>
                            (category = JStr ''spot''
                               \<longrightarrow> py_get lot ''basePrecision'' (JStr '''') = Inr sz_tick)))
             infos outs)"
proof -
  have h: "parse_symbols BybitFetcher bybit_payload = Inr bybit_records"
    by (rule bybit_payload_parsed)
  show ?thesis
    using h bybit_ticks [OF h] by (intro conjI) assumption+
qed

subsection \<open>Binance: the last filter of a type wins\<close>

text \<open>
  Claim C10. Whenever a Binance parse (spot or perpetual) succeeds, every record
  emitted for an instrument has under \<^verbatim>\<open>priceTick\<close> the \<^verbatim>\<open>tickSize\<close> of the last
  entry of the instrument's filter list whose type is \<^verbatim>\<open>PRICE_FILTER\<close>, and under
  \<^verbatim>\<open>szTick\<close> the \<^verbatim>\<open>stepSize\<close> of the last entry whose type is \<^verbatim>\<open>LOT_SIZE\<close>.
\<close>

theorem binance_last_filter_wins:
  assumes "parse_symbols f exchange_info = Inr symbols" and "f \<noteq> BybitFetcher"
  shows "\<exists>infos outs.
           instruments f exchange_info = Inr infos \<and> symbols = concat outs \<and>
           list_all2 (\<lambda>info out. symbol_records f info = Inr out \<and>
                        (\<forall>r \<in> set out. \<exists>filters filter_list price_filters lot_sizes price_tick sz_tick.
                            py_get info ''filters'' (JArr []) = Inr filters \<and>
                            py_iter filters = Inr filter_list \<and>
                            price_filters =
                              filter (\<lambda>fi. py_item fi ''filterType'' = Inr (JStr ''PRICE_FILTER''))
                                filter_list \<and>
                            lot_sizes =
                              filter (\<lambda>fi. py_item fi ''filterType'' = Inr (JStr ''LOT_SIZE''))
                                filter_list \<and>
                            price_filters \<noteq> [] \<and> lot_sizes \<noteq> [] \<and>
                            py_get (last price_filters) ''tickSize'' (JStr '''') = Inr price_tick \<and>
                            py_get (last lot_sizes) ''stepSize'' (JStr '''') = Inr sz_tick \<and>
                            map_of r ''priceTick'' = Some price_tick \<and>
                            map_of r ''szTick'' = Some sz_tick))
             infos outs"
proof (rule list_all2_parse [OF assms(1)], intro ballI)
  fix info out r
  assume b: "symbol_records f info = Inr out" and r: "r \<in> set out"
  from b assms(2) obtain instrument where b': "binance_symbol instrument info = Inr out"
    by (cases f) auto
  from binance_symbol_Inr [OF b' r]
  obtain filters filter_list price_filter qty_filter symbol base quote price_tick sz_tick where
    f: "py_get info ''filters'' (JArr []) = Inr filters" and
    i: "py_iter filters = Inr filter_list" and
    s: "scan_filters filter_list JNull JNull = Inr (price_filter, qty_filter)" and
    tp: "truthy price_filter" and tq: "truthy qty_filter" and
    pt: "py_get price_filter ''tickSize'' (JStr '''') = Inr price_tick" and
    st: "py_get qty_filter ''stepSize'' (JStr '''') = Inr sz_tick" and
    req: "r = [(''symbol'', symbol), (''base'', base), (''quote'', quote),
          (''instrument'', JStr instrument),
          (''priceTick'', price_tick), (''szTick'', sz_tick)]"
    by metis
  let ?ps = "filter (\<lambda>fi. py_item fi ''filterType'' = Inr (JStr ''PRICE_FILTER'')) filter_list"
  let ?qs = "filter (\<lambda>fi. py_item fi ''filterType'' = Inr (JStr ''LOT_SIZE'')) filter_list"
  from scan_filters_last [OF s] have pf: "price_filter = last (JNull # ?ps)"
    and qf: "qty_filter = last (JNull # ?qs)" by simp_all
  from tp pf have p1: "?ps \<noteq> []" and p2: "price_filter = last ?ps"
    using last_filter_truthy [of _ filter_list] by metis+
  from tq qf have q1: "?qs \<noteq> []" and q2: "qty_filter = last ?qs"
    using last_filter_truthy [of _ filter_list] by metis+
  from req have m1: "map_of r ''priceTick'' = Some price_tick"
    and m2: "map_of r ''szTick'' = Some sz_tick" by simp_all
  from f i p1 q1 pt st m1 m2 p2 q2
  show "\<exists>filters filter_list price_filters lot_sizes price_tick sz_tick.
          py_get info ''filters'' (JArr []) = Inr filters \<and>
          py_iter filters = Inr filter_list \<and>
          price_filters =
            filter (\<lambda>fi. py_item fi ''filterType'' = Inr (JStr ''PRICE_FILTER'')) filter_list \<and>
          lot_sizes =
            filter (\<lambda>fi. py_item fi ''filterType'' = Inr (JStr ''LOT_SIZE'')) filter_list \<and>
          price_filters \<noteq> [] \<and> lot_sizes \<noteq> [] \<and>
          py_get (last price_filters) ''tickSize'' (JStr '''') = Inr price_tick \<and>
          py_get (last lot_sizes) ''stepSize'' (JStr '''') = Inr sz_tick \<and>
          map_of r ''priceTick'' = Some price_tick \<and>
          map_of r ''szTick'' = Some sz_tick"
    by (intro exI [of _ filters] exI [of _ filter_list] exI [of _ ?ps] exI [of _ ?qs]
          exI [of _ price_tick] exI [of _ sz_tick]) simp
qed

text \<open>
  The theorem at the perpetual payload that lists both filter types twice: the
  record has the tick and step size of the second entries.
\<close>

theorem binance_last_filter_wins_witness:
  "parse_symbols BinancePerpFetcher duplicate_filters_payload = Inr duplicate_filters_records \<and>
   BinancePerpFetcher \<noteq> BybitFetcher \<and>
   (\<exists>infos outs.
           instruments BinancePerpFetcher duplicate_filters_payload = Inr infos \<and> duplicate_filters_records = concat outs \<and>
           list_all2 (\<lambda>info out. symbol_records BinancePerpFetcher info = Inr out \<and>
                        (\<forall>r \<in> set out. \<exists>filters filter_list price_filters lot_sizes price_tick sz_tick.
                            py_get info ''filters'' (JArr []) = Inr filters \<and>
                            py_iter filters = Inr filter_list \<and>
                            price_filters =
                              filter (\<lambda>fi. py_item fi ''filterType'' = Inr (JStr ''PRICE_FILTER''))
                                filter_list \<and>
                            lot_sizes =
                              filter (\<lambda>fi. py_item fi ''filterType'' = Inr (JStr ''LOT_SIZE''))
                                filter_list \<and>
                            price_filters \<noteq> [] \<and> lot_sizes \<noteq> [] \<and>
                            py_get (last price_filters) ''tickSize'' (JStr '''') = Inr price_tick \<and>
                            py_get (last lot_sizes) ''stepSize'' (JStr '''') = Inr sz_tick \<and>
                            map_of r ''priceTick'' = Some price_tick \<and>
                            map_of r ''szTick'' = Some sz_tick))
             infos outs)"
proof -
  have h: "parse_symbols BinancePerpFetcher duplicate_filters_payload = Inr duplicate_filters_records"
    by (simp add: duplicate_filters_payload_def duplicate_filters_records_def
          binance_parse_symbols_def binance_symbol_def)
  have n: "BinancePerpFetcher \<noteq> BybitFetcher" by simp
  show ?thesis
    using h n binance_last_filter_wins [OF h n] by (intro conjI) assumption+
qed

subsection \<open>The fields of an emitted record\<close>

text \<open>
  Claim C1 says that every emitted record has non-empty \<^verbatim>\<open>symbol\<close>, \<^verbatim>\<open>base\<close>,
  \<^verbatim>\<open>quote\<close>, \<^verbatim>\<open>priceTick\<close> and \<^verbatim>\<open>szTick\<close>, and is emitted only if both ticks
  could be resolved from the filters. The parsers do not check any of this: the
  Bybit parser emits a record with two empty ticks for an active instrument
  without filters, and the spot parser emits a record of empty strings for an
  instrument with empty names whose two filters lack \<^verbatim>\<open>tickSize\<close> and
  \<^verbatim>\<open>stepSize\<close>.
\<close>

theorem nonempty_fields_counterexample:
  "parse_symbols BybitFetcher unresolved_ticks_payload =
     Inr [[(''symbol'', JStr ''BTCUSDT''), (''base'', JStr ''BTC''), (''quote'', JStr ''USDT''),
           (''instrument'', JStr ''spot''), (''priceTick'', JStr ''''), (''szTick'', JStr '''')]] \<and>
   parse_symbols BinanceSpotFetcher empty_names_payload =
     Inr [[(''symbol'', JStr ''''), (''base'', JStr ''''), (''quote'', JStr ''''),
           (''instrument'', JStr ''spot''), (''priceTick'', JStr ''''), (''szTick'', JStr '''')]]"
  by (simp add: unresolved_ticks_payload_def empty_names_payload_def bybit_parse_symbols_def
        bybit_symbol_def bybit_sz_tick_def bybit_instrument_def binance_parse_symbols_def
        binance_symbol_def)

text \<open>
  Claim C1 as amended. Whenever a parse succeeds, every record emitted for an
  instrument comes from an instrument whose status is the active-trading marker
  and has the fields \<^verbatim>\<open>symbol\<close>, \<^verbatim>\<open>base\<close> and \<^verbatim>\<open>quote\<close> with the values the
  instrument has under its symbol, base and quote keys (which it must have), and the
  fields \<^verbatim>\<open>priceTick\<close> and \<^verbatim>\<open>szTick\<close>. In the two Binance parsers the instrument's
  filter list has a \<^verbatim>\<open>PRICE_FILTER\<close> and a \<^verbatim>\<open>LOT_SIZE\<close> entry, and the two ticks
  are what \<^verbatim>\<open>get('tickSize', '')\<close> and \<^verbatim>\<open>get('stepSize', '')\<close> read from them:
  the empty string when the entry lacks the field. In the Bybit parser the price
  tick is what \<^verbatim>\<open>get('tickSize', '')\<close> reads from the instrument's
  \<^verbatim>\<open>priceFilter\<close> and the size tick what \<^verbatim>\<open>get('qtyStep', '')\<close> or
  \<^verbatim>\<open>get('basePrecision', '')\<close> reads from its \<^verbatim>\<open>lotSizeFilter\<close>, an empty
  dict standing for a filter the instrument lacks.
\<close>

theorem emitted_record_fields:
  assumes "parse_symbols f exchange_info = Inr symbols"
  shows "\<exists>infos outs.
           instruments f exchange_info = Inr infos \<and> symbols = concat outs \<and>
           list_all2 (\<lambda>info out. symbol_records f info = Inr out \<and>
                        (\<forall>r \<in> set out. \<exists>symbol base quote price_tick sz_tick.
                            py_get info ''status'' JNull = Inr (JStr (active_marker f)) \<and>
                            py_item info ''symbol'' = Inr symbol \<and>
                            py_item info (base_key f) = Inr base \<and>
                            py_item info (quote_key f) = Inr quote \<and>
                            map_of r ''symbol'' = Some symbol \<and>
                            map_of r ''base'' = Some base \<and>
                            map_of r ''quote'' = Some quote \<and>
                            map_of r ''priceTick'' = Some price_tick \<and>
                            map_of r ''szTick'' = Some sz_tick \<and>
                            (f \<noteq> BybitFetcher \<longrightarrow>
                               (\<exists>filters filter_list pf qf.
                                  py_get info ''filters'' (JArr []) = Inr filters \<and>
                                  py_iter filters = Inr filter_list \<and>
                                  pf \<in> set filter_list \<and> qf \<in> set filter_list \<and>
                                  py_item pf ''filterType'' = Inr (JStr ''PRICE_FILTER'') \<and>
                                  py_item qf ''filterType'' = Inr (JStr ''LOT_SIZE'') \<and>
                                  py_get pf ''tickSize'' (JStr '''') = Inr price_tick \<and>
                                  py_get qf ''stepSize'' (JStr '''') = Inr sz_tick)) \<and>
                            (f = BybitFetcher \<longrightarrow>
                               (\<exists>price lot.
                                  py_get info ''priceFilter'' (JObj []) = Inr price \<and>
                                  py_get info ''lotSizeFilter'' (JObj []) = Inr lot \<and>
                                  py_get price ''tickSize'' (JStr '''') = Inr price_tick \<and>
                                  (py_get lot ''qtyStep'' (JStr '''') = Inr sz_tick \<or>
                                   py_get lot ''basePrecision'' (JStr '''') = Inr sz_tick)))))
             infos outs"
proof (rule list_all2_parse [OF assms], intro ballI)
  fix info out r
  assume b: "symbol_records f info = Inr out" and r: "r \<in> set out"
  show "\<exists>symbol base quote price_tick sz_tick.
          py_get info ''status'' JNull = Inr (JStr (active_marker f)) \<and>
          py_item info ''symbol'' = Inr symbol \<and>
          py_item info (base_key f) = Inr base \<and>
          py_item info (quote_key f) = Inr quote \<and>
          map_of r ''symbol'' = Some symbol \<and>
          map_of r ''base'' = Some base \<and>
          map_of r ''quote'' = Some quote \<and>
          map_of r ''priceTick'' = Some price_tick \<and>
          map_of r ''szTick'' = Some sz_tick \<and>
          (f \<noteq> BybitFetcher \<longrightarrow>
             (\<exists>filters filter_list pf qf.
                py_get info ''filters'' (JArr []) = Inr filters \<and>
                py_iter filters = Inr filter_list \<and>
                pf \<in> set filter_list \<and> qf \<in> set filter_list \<and>
                py_item pf ''filterType'' = Inr (JStr ''PRICE_FILTER'') \<and>
                py_item qf ''filterType'' = Inr (JStr ''LOT_SIZE'') \<and>
                py_get pf ''tickSize'' (JStr '''') = Inr price_tick \<and>
                py_get qf ''stepSize'' (JStr '''') = Inr sz_tick)) \<and>
          (f = BybitFetcher \<longrightarrow>
             (\<exists>price lot.
                py_get info ''priceFilter'' (JObj []) = Inr price \<and>
                py_get info ''lotSizeFilter'' (JObj []) = Inr lot \<and>
                py_get price ''tickSize'' (JStr '''') = Inr price_tick \<and>
                (py_get lot ''qtyStep'' (JStr '''') = Inr sz_tick \<or>
                 py_get lot ''basePrecision'' (JStr '''') = Inr sz_tick)))"
  proof (cases "f = BybitFetcher")
    case True
    with b have b': "bybit_symbol info = Inr out" by simp
    from True have keys: "active_marker f = ''Trading''" "base_key f = ''baseCoin''"
      "quote_key f = ''quoteCoin''" by simp_all
    from bybit_symbol_Inr [OF b' r]
    obtain price lot category sz_tick symbol base quote price_tick where
      st: "py_get info ''status'' JNull = Inr (JStr ''Trading'')" and
      pf: "py_get info ''priceFilter'' (JObj []) = Inr price" and
      lf: "py_get info ''lotSizeFilter'' (JObj []) = Inr lot" and
      "py_get info ''category'' (JStr ''spot'') = Inr category" and
      bs: "bybit_sz_tick category lot = Inr sz_tick" and
      sy: "py_item info ''symbol'' = Inr symbol" and
      ba: "py_item info ''baseCoin'' = Inr base" and
      qu: "py_item info ''quoteCoin'' = Inr quote" and
      pt: "py_get price ''tickSize'' (JStr '''') = Inr price_tick" and
      req: "r = [(''symbol'', symbol), (''base'', base), (''quote'', quote),
            (''instrument'', bybit_instrument category),
            (''priceTick'', price_tick), (''szTick'', sz_tick)]"
      .
    from req have maps: "map_of r ''symbol'' = Some symbol" "map_of r ''base'' = Some base"
      "map_of r ''quote'' = Some quote" "map_of r ''priceTick'' = Some price_tick"
      "map_of r ''szTick'' = Some sz_tick" by simp_all
    from True have other: "f \<noteq> BybitFetcher \<longrightarrow>
             (\<exists>filters filter_list pf qf.
                py_get info ''filters'' (JArr []) = Inr filters \<and>
                py_iter filters = Inr filter_list \<and>
                pf \<in> set filter_list \<and> qf \<in> set filter_list \<and>
                py_item pf ''filterType'' = Inr (JStr ''PRICE_FILTER'') \<and>
                py_item qf ''filterType'' = Inr (JStr ''LOT_SIZE'') \<and>
                py_get pf ''tickSize'' (JStr '''') = Inr price_tick \<and>
                py_get qf ''stepSize'' (JStr '''') = Inr sz_tick)"
      by simp
    from bs have "py_get lot ''qtyStep'' (JStr '''') = Inr sz_tick \<or>
                  py_get lot ''basePrecision'' (JStr '''') = Inr sz_tick"
      by (simp add: bybit_sz_tick_def split: if_splits)
    with pf lf pt have mine: "f = BybitFetcher \<longrightarrow>
             (\<exists>price lot.
                py_get info ''priceFilter'' (JObj []) = Inr price \<and>
                py_get info ''lotSizeFilter'' (JObj []) = Inr lot \<and>
                py_get price ''tickSize'' (JStr '''') = Inr price_tick \<and>
                (py_get lot ''qtyStep'' (JStr '''') = Inr sz_tick \<or>
                 py_get lot ''basePrecision'' (JStr '''') = Inr sz_tick))"
      by blast
    show ?thesis
      unfolding keys
      by (intro exI [of _ symbol] exI [of _ base] exI [of _ quote] exI [of _ price_tick]
            exI [of _ sz_tick] conjI st sy ba qu maps other mine)
  next
    case False
    with b obtain instrument where b': "binance_symbol instrument info = Inr out"
      by (cases f) auto
    from False have keys: "active_marker f = ''TRADING''" "base_key f = ''baseAsset''"
      "quote_key f = ''quoteAsset''" by (cases f; simp)+
    from binance_symbol_Inr [OF b' r]
    obtain filters filter_list price_filter qty_filter symbol base quote price_tick sz_tick where
      st: "py_get info ''status'' JNull = Inr (JStr ''TRADING'')" and
      fl: "py_get info ''filters'' (JArr []) = Inr filters" and
      it: "py_iter filters = Inr filter_list" and
      sc: "scan_filters filter_list JNull JNull = Inr (price_filter, qty_filter)" and
      tp: "truthy price_filter" and tq: "truthy qty_filter" and
      sy: "py_item info ''symbol'' = Inr symbol" and
      ba: "py_item info ''baseAsset'' = Inr base" and
      qu: "py_item info ''quoteAsset'' = Inr quote" and
      pt: "py_get price_filter ''tickSize'' (JStr '''') = Inr price_tick" and
      sz: "py_get qty_filter ''stepSize'' (JStr '''') = Inr sz_tick" and
      req: "r = [(''symbol'', symbol), (''base'', base), (''quote'', quote),
            (''instrument'', JStr instrument),
            (''priceTick'', price_tick), (''szTick'', sz_tick)]"
      .
    let ?ps = "filter (\<lambda>fi. py_item fi ''filterType'' = Inr (JStr ''PRICE_FILTER'')) filter_list"
    let ?qs = "filter (\<lambda>fi. py_item fi ''filterType'' = Inr (JStr ''LOT_SIZE'')) filter_list"
    from scan_filters_last [OF sc] have pf: "price_filter = last (JNull # ?ps)"
      and qf: "qty_filter = last (JNull # ?qs)" by simp_all
    from tp pf have p1: "?ps \<noteq> []" and p2: "price_filter = last ?ps"
      using last_filter_truthy [of _ filter_list] by metis+
    from tq qf have q1: "?qs \<noteq> []" and q2: "qty_filter = last ?qs"
      using last_filter_truthy [of _ filter_list] by metis+
    from last_filter_mem [OF p1] p2 have pm: "price_filter \<in> set filter_list"
      and pty: "py_item price_filter ''filterType'' = Inr (JStr ''PRICE_FILTER'')" by simp_all
    from last_filter_mem [OF q1] q2 have qm: "qty_filter \<in> set filter_list"
      and qty: "py_item qty_filter ''filterType'' = Inr (JStr ''LOT_SIZE'')" by simp_all
    have inner: "\<exists>filters filter_list pf qf.
                py_get info ''filters'' (JArr []) = Inr filters \<and>
                py_iter filters = Inr filter_list \<and>
                pf \<in> set filter_list \<and> qf \<in> set filter_list \<and>
                py_item pf ''filterType'' = Inr (JStr ''PRICE_FILTER'') \<and>
                py_item qf ''filterType'' = Inr (JStr ''LOT_SIZE'') \<and>
                py_get pf ''tickSize'' (JStr '''') = Inr price_tick \<and>
                py_get qf ''stepSize'' (JStr '''') = Inr sz_tick"
      using fl it pm qm pty qty pt sz by blast
    from req have maps: "map_of r ''symbol'' = Some symbol" "map_of r ''base'' = Some base"
      "map_of r ''quote'' = Some quote" "map_of r ''priceTick'' = Some price_tick"
      "map_of r ''szTick'' = Some sz_tick" by simp_all
    from False have mine: "f = BybitFetcher \<longrightarrow>
             (\<exists>price lot.
                py_get info ''priceFilter'' (JObj []) = Inr price \<and>
                py_get info ''lotSizeFilter'' (JObj []) = Inr lot \<and>
                py_get price ''tickSize'' (JStr '''') = Inr price_tick \<and>
                (py_get lot ''qtyStep'' (JStr '''') = Inr sz_tick \<or>
                 py_get lot ''basePrecision'' (JStr '''') = Inr sz_tick))"
      by simp
    from inner have inner': "f \<noteq> BybitFetcher \<longrightarrow>
             (\<exists>filters filter_list pf qf.
                py_get info ''filters'' (JArr []) = Inr filters \<and>
                py_iter filters = Inr filter_list \<and>
                pf \<in> set filter_list \<and> qf \<in> set filter_list \<and>
                py_item pf ''filterType'' = Inr (JStr ''PRICE_FILTER'') \<and>
                py_item qf ''filterType'' = Inr (JStr ''LOT_SIZE'') \<and>
                py_get pf ''tickSize'' (JStr '''') = Inr price_tick \<and>
                py_get qf ''stepSize'' (JStr '''') = Inr sz_tick)"
      by (rule impI)
    show ?thesis
      unfolding keys
      by (intro exI [of _ symbol] exI [of _ base] exI [of _ quote] exI [of _ price_tick]
            exI [of _ sz_tick] conjI st sy ba qu maps inner' mine)
  qed
qed

text \<open>The theorem at the spot payload with empty names.\<close>

theorem emitted_record_fields_witness:
  "parse_symbols BinanceSpotFetcher empty_names_payload = Inr empty_names_records \<and>
   (\<exists>infos outs.
           instruments BinanceSpotFetcher empty_names_payload = Inr infos \<and> empty_names_records = concat outs \<and>
           list_all2 (\<lambda>info out. symbol_records BinanceSpotFetcher info = Inr out \<and>
                        (\<forall>r \<in> set out. \<exists>symbol base quote price_tick sz_tick.
                            py_get info ''status'' JNull = Inr (JStr (active_marker BinanceSpotFetcher)) \<and>
                            py_item info ''symbol'' = Inr symbol \<and>
                            py_item info (base_key BinanceSpotFetcher) = Inr base \<and>
                            py_item info (quote_key BinanceSpotFetcher) = Inr quote \<and>
                            map_of r ''symbol'' = Some symbol \<and>
                            map_of r ''base'' = Some base \<and>
                            map_of r ''quote'' = Some quote \<and>
                            map_of r ''priceTick'' = Some price_tick \<and>
                            map_of r ''szTick'' = Some sz_tick \<and>
                            (BinanceSpotFetcher \<noteq> BybitFetcher \<longrightarrow>
                               (\<exists>filters filter_list pf qf.
                                  py_get info ''filters'' (JArr []) = Inr filters \<and>
                                  py_iter filters = Inr filter_list \<and>
                                  pf \<in> set filter_list \<and> qf \<in> set filter_list \<and>
                                  py_item pf ''filterType'' = Inr (JStr ''PRICE_FILTER'') \<and>
                                  py_item qf ''filterType'' = Inr (JStr ''LOT_SIZE'') \<and>
                                  py_get pf ''tickSize'' (JStr '''') = Inr price_tick \<and>
                                  py_get qf ''stepSize'' (JStr '''') = Inr sz_tick)) \<and>
                            (BinanceSpotFetcher = BybitFetcher \<longrightarrow>
                               (\<exists>price lot.
                                  py_get info ''priceFilter'' (JObj []) = Inr price \<and>
                                  py_get info ''lotSizeFilter'' (JObj []) = Inr lot \<and>
                                  py_get price ''tickSize'' (JStr '''') = Inr price_tick \<and>
                                  (py_get lot ''qtyStep'' (JStr '''') = Inr sz_tick \<or>
                                   py_get lot ''basePrecision'' (JStr '''') = Inr sz_tick)))))
             infos outs)"
proof -
  have h: "parse_symbols BinanceSpotFetcher empty_names_payload = Inr empty_names_records"
    by (simp add: empty_names_payload_def empty_names_records_def
          binance_parse_symbols_def binance_symbol_def)
  show ?thesis
    using h emitted_record_fields [OF h] by (intro conjI) assumption+
qed

section \<open>Properties of the Bybit pagination\<close>

lemma tag_all_dicts: "tag_all category (map JObj symbols) = Inr (tagged category symbols)"
  by (induction symbols) (simp_all add: tagged_def)

lemma read_page_is_page:
  "is_page data symbols next_cursor \<Longrightarrow>
   read_page category data = Inr (JArr (map JObj symbols), tagged category symbols, next_cursor)"
  by (auto simp: is_page_def read_page_def tag_all_dicts split: option.splits)

lemma tagged_append: "tagged c (xs @ ys) = tagged c xs @ tagged c ys"
  by (simp add: tagged_def)

lemma paginate_run:
  assumes "serves answers pages" "category_run pages" "script w = answers @ rest"
  shows "\<exists>w1. paginate ''https://api.bybit.com'' category cursor all_symbols w =
               (Inr (all_symbols @ tagged category (concat (map fst pages))), w1) \<and>
           script w1 = rest \<and>
           sent w1 = sent w @
             map (\<lambda>cursor. \<lparr>url = ''https://api.bybit.com/v5/market/instruments-info'',
                      params = page_params category cursor\<rparr>) (cursor # map snd (butlast pages))"
  using assms
proof (induction pages arbitrary: answers cursor all_symbols w)
  case Nil
  then show ?case by (simp add: category_run_def)
next
  case (Cons page pages)
  from Cons.prems(1) obtain code data answers' where
    a: "answers = Http_response code data # answers'" and
    ok: "\<not> (400 \<le> code \<and> code < 600)" and
    pg: "is_page data (fst page) (snd page)" and
    sv: "serves answers' pages"
    by (auto simp: serves_def list_all2_Cons2)
  let ?req = "\<lparr>url = ''https://api.bybit.com/v5/market/instruments-info'',
                params = page_params category cursor\<rparr>"
  let ?w1 = "w\<lparr>sent := sent w @ [?req], script := answers' @ rest\<rparr>"
  have rg: "requests_get (''https://api.bybit.com'' @ ''/v5/market/instruments-info'')
              (page_params category cursor) w = (Inr (code, data), ?w1)"
    using Cons.prems(3) a by (simp add: requests_get_def)
  have rs: "raise_for_status (code, data) = Inr ()"
    using ok by (auto simp: raise_for_status_def)
  note rp = read_page_is_page [OF pg, of category]
  show ?case
  proof (cases "pages = []")
    case True
    with Cons.prems(2) have stop: "\<not> truthy (snd page) \<or> \<not> truthy (JArr (map JObj (fst page)))"
      by (auto simp: category_run_def)
    from True sv have "answers' = []" by (simp add: serves_def)
    with True stop rg rs rp show ?thesis
      by (subst paginate.simps) simp
  next
    case False
    with Cons.prems(2) have go: "truthy (snd page)" "truthy (JArr (map JObj (fst page)))"
      and run: "category_run pages"
      by (auto simp: category_run_def)
    let ?w2 = "print (Fetched (length (tagged category (fst page))) category
                 (length (all_symbols @ tagged category (fst page)))) ?w1"
    have sc: "script ?w2 = answers' @ rest" by (simp add: print_def)
    from Cons.IH [OF sv run sc, of "snd page" "all_symbols @ tagged category (fst page)"]
    obtain w3 where
      p: "paginate ''https://api.bybit.com'' category (snd page)
            (all_symbols @ tagged category (fst page)) ?w2 =
          (Inr ((all_symbols @ tagged category (fst page)) @
                 tagged category (concat (map fst pages))), w3)" and
      s3: "script w3 = rest" and
      t3: "sent w3 = sent ?w2 @
             map (\<lambda>cursor. \<lparr>url = ''https://api.bybit.com/v5/market/instruments-info'',
                      params = page_params category cursor\<rparr>) (snd page # map snd (butlast pages))"
      by blast
    have "paginate ''https://api.bybit.com'' category cursor all_symbols w =
            (Inr (all_symbols @ tagged category (concat (map fst (page # pages)))), w3)"
      using rg rs rp go p by (subst paginate.simps) (simp add: tagged_append)
    moreover have "sent w3 = sent w @
             map (\<lambda>cursor. \<lparr>url = ''https://api.bybit.com/v5/market/instruments-info'',
                      params = page_params category cursor\<rparr>)
               (cursor # map snd (butlast (page # pages)))"
      using t3 False by (simp add: print_def)
    ultimately show ?thesis using s3 by blast
  qed
qed

lemma run_requests:
  assumes "category_run pages"
  shows "map (\<lambda>cursor. \<lparr>url = u, params = page_params category cursor\<rparr>)
           (JNull # map snd (butlast pages)) =
         \<lparr>url = u, params = [(''category'', JStr category), (''limit'', JInt 1000)]\<rparr> #
         map (\<lambda>page. \<lparr>url = u,
                        params = [(''category'', JStr category), (''limit'', JInt 1000),
                                  (''cursor'', snd page)]\<rparr>)
           (butlast pages)"
  using assms by (auto simp: category_run_def page_params_def)

lemma paginate_category:
  assumes "serves answers pages" "category_run pages" "script w = answers @ rest"
  shows "\<exists>w1. paginate ''https://api.bybit.com'' category JNull all_symbols w =
               (Inr (all_symbols @ tagged category (concat (map fst pages))), w1) \<and>
           script w1 = rest \<and>
           sent w1 = sent w @
             \<lparr>url = ''https://api.bybit.com/v5/market/instruments-info'',
              params = [(''category'', JStr category), (''limit'', JInt 1000)]\<rparr> #
             map (\<lambda>page. \<lparr>url = ''https://api.bybit.com/v5/market/instruments-info'',
                            params = [(''category'', JStr category), (''limit'', JInt 1000),
                                      (''cursor'', snd page)]\<rparr>)
               (butlast pages)"
proof -
  from paginate_run [OF assms, of category JNull all_symbols] obtain w1 where
    p: "paginate ''https://api.bybit.com'' category JNull all_symbols w =
               (Inr (all_symbols @ tagged category (concat (map fst pages))), w1)" and
    s: "script w1 = rest" and
    t: "sent w1 = sent w @
             map (\<lambda>cursor. \<lparr>url = ''https://api.bybit.com/v5/market/instruments-info'',
                      params = page_params category cursor\<rparr>) (JNull # map snd (butlast pages))"
    by blast
  note t [unfolded run_requests [OF assms(2)]]
  with p s show ?thesis by blast
qed

text \<open>
  Claim C3. Let the script begin with answers that deliver a run of spot pages,
  then a run of linear pages, then a run of inverse pages. Then
  \<^verbatim>\<open>BybitFetcher.get_exchange_info\<close> returns the payload whose list is the
  instruments of the spot pages, of the linear pages and of the inverse pages, in
  this order, each tagged with its category. It has sent, to the instruments
  endpoint, the requests for the spot pages, then those for the linear pages,
  then those for the inverse pages: for each category one request with the
  category and the limit 1000 and no cursor, and one more request for every page
  but the last, with the cursor that page has given. So each category stops
  at the first page with a false cursor or without instruments, and the rest of
  the script is not touched.
\<close>

theorem bybit_pagination:
  assumes "script w = answers1 @ answers2 @ answers3 @ rest"
    and "serves answers1 spot_pages" and "category_run spot_pages"
    and "serves answers2 linear_pages" and "category_run linear_pages"
    and "serves answers3 inverse_pages" and "category_run inverse_pages"
  shows "\<exists>w1. get_exchange_info BybitFetcher w =
                (Inr (JObj [(''result'', JObj [(''list'',
                   JArr (tagged ''spot'' (concat (map fst spot_pages)) @
                         tagged ''linear'' (concat (map fst linear_pages)) @
                         tagged ''inverse'' (concat (map fst inverse_pages))))])]), w1) \<and>
              script w1 = rest \<and>
              sent w1 = sent w @
                (\<lparr>url = ''https://api.bybit.com/v5/market/instruments-info'',
                  params = [(''category'', JStr ''spot''), (''limit'', JInt 1000)]\<rparr> #
                 map (\<lambda>page. \<lparr>url = ''https://api.bybit.com/v5/market/instruments-info'',
                                params = [(''category'', JStr ''spot''), (''limit'', JInt 1000),
                                          (''cursor'', snd page)]\<rparr>)
                   (butlast spot_pages)) @
                (\<lparr>url = ''https://api.bybit.com/v5/market/instruments-info'',
                  params = [(''category'', JStr ''linear''), (''limit'', JInt 1000)]\<rparr> #
                 map (\<lambda>page. \<lparr>url = ''https://api.bybit.com/v5/market/instruments-info'',
                                params = [(''category'', JStr ''linear''), (''limit'', JInt 1000),
                                          (''cursor'', snd page)]\<rparr>)
                   (butlast linear_pages)) @
                (\<lparr>url = ''https://api.bybit.com/v5/market/instruments-info'',
                  params = [(''category'', JStr ''inverse''), (''limit'', JInt 1000)]\<rparr> #
                 map (\<lambda>page. \<lparr>url = ''https://api.bybit.com/v5/market/instruments-info'',
                                params = [(''category'', JStr ''inverse''), (''limit'', JInt 1000),
                                          (''cursor'', snd page)]\<rparr>)
                   (butlast inverse_pages))"
proof -
  let ?w0 = "print (Fetching_category ''spot'') w"
  have s0: "script ?w0 = answers1 @ (answers2 @ answers3 @ rest)"
    using assms(1) by (simp add: print_def)
  from paginate_category [OF assms(2,3) s0, of "''spot''" "[]"]
  obtain w1 where
    p1: "paginate ''https://api.bybit.com'' ''spot'' JNull [] ?w0 =
           (Inr (tagged ''spot'' (concat (map fst spot_pages))), w1)" and
    s1: "script w1 = answers2 @ answers3 @ rest" and
    t1: "sent w1 = sent w @
           \<lparr>url = ''https://api.bybit.com/v5/market/instruments-info'',
             params = [(''category'', JStr ''spot''), (''limit'', JInt 1000)]\<rparr> #
           map (\<lambda>page. \<lparr>url = ''https://api.bybit.com/v5/market/instruments-info'',
                          params = [(''category'', JStr ''spot''), (''limit'', JInt 1000),
                                    (''cursor'', snd page)]\<rparr>)
             (butlast spot_pages)"
    by (auto simp: print_def)
  let ?w1 = "print (Fetching_category ''linear'') w1"
  have s1': "script ?w1 = answers2 @ (answers3 @ rest)"
    using s1 by (simp add: print_def)
  from paginate_category [OF assms(4,5) s1', of "''linear''"
         "tagged ''spot'' (concat (map fst spot_pages))"]
  obtain w2 where
    p2: "paginate ''https://api.bybit.com'' ''linear'' JNull
           (tagged ''spot'' (concat (map fst spot_pages))) ?w1 =
           (Inr (tagged ''spot'' (concat (map fst spot_pages)) @
                 tagged ''linear'' (concat (map fst linear_pages))), w2)" and
    s2: "script w2 = answers3 @ rest" and
    t2: "sent w2 = sent w1 @
           \<lparr>url = ''https://api.bybit.com/v5/market/instruments-info'',
             params = [(''category'', JStr ''linear''), (''limit'', JInt 1000)]\<rparr> #
           map (\<lambda>page. \<lparr>url = ''https://api.bybit.com/v5/market/instruments-info'',
                          params = [(''category'', JStr ''linear''), (''limit'', JInt 1000),
                                    (''cursor'', snd page)]\<rparr>)
             (butlast linear_pages)"
    by (auto simp: print_def)
  let ?w2 = "print (Fetching_category ''inverse'') w2"
  have s2': "script ?w2 = answers3 @ rest"
    using s2 by (simp add: print_def)
  from paginate_category [OF assms(6,7) s2', of "''inverse''"
         "tagged ''spot'' (concat (map fst spot_pages)) @
          tagged ''linear'' (concat (map fst linear_pages))"]
  obtain w3 where
    p3: "paginate ''https://api.bybit.com'' ''inverse'' JNull
           (tagged ''spot'' (concat (map fst spot_pages)) @
            tagged ''linear'' (concat (map fst linear_pages))) ?w2 =
           (Inr ((tagged ''spot'' (concat (map fst spot_pages)) @
                  tagged ''linear'' (concat (map fst linear_pages))) @
                 tagged ''inverse'' (concat (map fst inverse_pages))), w3)" and
    s3: "script w3 = rest" and
    t3: "sent w3 = sent w2 @
           \<lparr>url = ''https://api.bybit.com/v5/market/instruments-info'',
             params = [(''category'', JStr ''inverse''), (''limit'', JInt 1000)]\<rparr> #
           map (\<lambda>page. \<lparr>url = ''https://api.bybit.com/v5/market/instruments-info'',
                          params = [(''category'', JStr ''inverse''), (''limit'', JInt 1000),
                                    (''cursor'', snd page)]\<rparr>)
             (butlast inverse_pages)"
    by (auto simp: print_def)
  have "get_exchange_info BybitFetcher w =
          (Inr (JObj [(''result'', JObj [(''list'',
             JArr (tagged ''spot'' (concat (map fst spot_pages)) @
                   tagged ''linear'' (concat (map fst linear_pages)) @
                   tagged ''inverse'' (concat (map fst inverse_pages))))])]), w3)"
    by (simp add: bybit_get_exchange_info_def p1 p2 p3)
  moreover note s3
  moreover have "sent w3 = sent w @
                (\<lparr>url = ''https://api.bybit.com/v5/market/instruments-info'',
                  params = [(''category'', JStr ''spot''), (''limit'', JInt 1000)]\<rparr> #
                 map (\<lambda>page. \<lparr>url = ''https://api.bybit.com/v5/market/instruments-info'',
                                params = [(''category'', JStr ''spot''), (''limit'', JInt 1000),
                                          (''cursor'', snd page)]\<rparr>)
                   (butlast spot_pages)) @
                (\<lparr>url = ''https://api.bybit.com/v5/market/instruments-info'',
                  params = [(''category'', JStr ''linear''), (''limit'', JInt 1000)]\<rparr> #
                 map (\<lambda>page. \<lparr>url = ''https://api.bybit.com/v5/market/instruments-info'',
                                params = [(''category'', JStr ''linear''), (''limit'', JInt 1000),
                                          (''cursor'', snd page)]\<rparr>)
                   (butlast linear_pages)) @
                (\<lparr>url = ''https://api.bybit.com/v5/market/instruments-info'',
                  params = [(''category'', JStr ''inverse''), (''limit'', JInt 1000)]\<rparr> #
                 map (\<lambda>page. \<lparr>url = ''https://api.bybit.com/v5/market/instruments-info'',
                                params = [(''category'', JStr ''inverse''), (''limit'', JInt 1000),
                                          (''cursor'', snd page)]\<rparr>)
                   (butlast inverse_pages))"
    unfolding t3 t2 t1 by simp
  ultimately show ?thesis by blast
qed

lemma sample_serves:
  "serves (take 2 (script sample_world)) sample_spot_pages"
  "serves (take 1 (drop 2 (script sample_world))) sample_linear_pages"
  "serves (take 1 (drop 3 (script sample_world))) sample_inverse_pages"
  by (simp_all add: sample_world_def serves_def is_page_def sample_spot_pages_def
        sample_linear_pages_def sample_inverse_pages_def)

text \<open>
  The theorem at the sample script: the second spot page is asked for with the
  cursor of the first, the linear category stops at its empty page although
  that page has a cursor, and the failing answer is never requested.
\<close>

theorem bybit_pagination_witness:
  "\<exists>w1. get_exchange_info BybitFetcher sample_world =
          (Inr (JObj [(''result'', JObj [(''list'',
             JArr [JObj [(''symbol'', JStr ''BTCUSDT''), (''status'', JStr ''Trading''),
                         (''category'', JStr ''spot'')],
                   JObj [(''symbol'', JStr ''ETHUSDT''), (''status'', JStr ''Trading''),
                         (''category'', JStr ''spot'')],
                   JObj [(''symbol'', JStr ''BTCUSD''), (''category'', JStr ''inverse'')]])])]),
           w1) \<and>
        script w1 = [Transport_failure] \<and>
        sent w1 =
          [\<lparr>url = ''https://api.bybit.com/v5/market/instruments-info'',
            params = [(''category'', JStr ''spot''), (''limit'', JInt 1000)]\<rparr>,
           \<lparr>url = ''https://api.bybit.com/v5/market/instruments-info'',
            params = [(''category'', JStr ''spot''), (''limit'', JInt 1000),
                      (''cursor'', JStr ''page2'')]\<rparr>,
           \<lparr>url = ''https://api.bybit.com/v5/market/instruments-info'',
            params = [(''category'', JStr ''linear''), (''limit'', JInt 1000)]\<rparr>,
           \<lparr>url = ''https://api.bybit.com/v5/market/instruments-info'',
            params = [(''category'', JStr ''inverse''), (''limit'', JInt 1000)]\<rparr>]"
proof -
  have s: "script sample_world =
             take 2 (script sample_world) @ take 1 (drop 2 (script sample_world)) @
             take 1 (drop 3 (script sample_world)) @ [Transport_failure]"
    by (simp add: sample_world_def)
  have r1: "category_run sample_spot_pages"
    by (simp add: category_run_def sample_spot_pages_def)
  have r2: "category_run sample_linear_pages"
    by (simp add: category_run_def sample_linear_pages_def)
  have r3: "category_run sample_inverse_pages"
    by (simp add: category_run_def sample_inverse_pages_def)
  have e: "sent sample_world = []" by (simp add: sample_world_def)
  from bybit_pagination [OF s sample_serves(1) r1 sample_serves(2) r2 sample_serves(3) r3]
  show ?thesis
    by (simp add: e tagged_def sample_spot_pages_def sample_linear_pages_def
          sample_inverse_pages_def)
qed

section \<open>Properties of the record writer\<close>

subsection \<open>Paths\<close>

lemma split_slash_not_Nil: "split_slash xs \<noteq> []"
  by (induction xs) (auto split: list.splits)

lemma split_slash_append:
  "split_slash (xs @ CHR ''/'' # ys) = split_slash xs @ split_slash ys"
proof (induction xs)
  case Nil
  then show ?case by simp
next
  case (Cons c xs)
  then show ?case
    using split_slash_not_Nil [of xs] by (auto split: list.splits)
qed

lemma split_slash_no_slash: "CHR ''/'' \<notin> set xs \<Longrightarrow> split_slash xs = [xs]"
  by (induction xs) auto

lemma components_append:
  "components (xs @ CHR ''/'' # ys) = components xs @ components ys"
  by (simp add: components_def split_slash_append)

lemma components_no_slash:
  "CHR ''/'' \<notin> set xs \<Longrightarrow> xs \<noteq> [] \<Longrightarrow> components xs = [xs]"
  by (simp add: components_def split_slash_no_slash)

lemma components_Nil: "components [] = []"
  by (simp add: components_def)

lemma components_trailing:
  "components (xs @ replicate n CHR ''/'') = components xs"
proof (induction n)
  case 0
  then show ?case by simp
next
  case (Suc n)
  have "xs @ replicate (Suc n) CHR ''/'' = (xs @ replicate n CHR ''/'') @ CHR ''/'' # []"
    by (simp add: replicate_append_same)
  then show ?case
    using Suc by (simp only: components_append components_Nil) simp
qed

lemma rstrip_decomp:
  "xs = rev (dropWhile (\<lambda>c. c = x) (rev xs)) @ replicate (length (takeWhile (\<lambda>c. c = x) (rev xs))) x"
proof -
  have "rev xs = takeWhile (\<lambda>c. c = x) (rev xs) @ dropWhile (\<lambda>c. c = x) (rev xs)"
    by simp
  then have "xs = rev (dropWhile (\<lambda>c. c = x) (rev xs)) @ rev (takeWhile (\<lambda>c. c = x) (rev xs))"
    by (metis rev_append rev_rev_ident)
  moreover have "takeWhile (\<lambda>c. c = x) (rev xs) = replicate (length (takeWhile (\<lambda>c. c = x) (rev xs))) x"
    by (rule replicate_length_same [symmetric]) (auto dest: set_takeWhileD)
  ultimately show ?thesis by (metis rev_replicate)
qed

lemma components_rstrip:
  "components (rev (dropWhile (\<lambda>c. c = CHR ''/'') (rev xs))) = components xs"
  using components_trailing [of "rev (dropWhile (\<lambda>c. c = CHR ''/'') (rev xs))"
           "length (takeWhile (\<lambda>c. c = CHR ''/'') (rev xs))"]
        rstrip_decomp [of xs "CHR ''/''"]
  by simp

lemma is_abs_append: "xs \<noteq> [] \<Longrightarrow> is_abs (xs @ ys) = is_abs xs"
  by (cases xs) (auto simp: is_abs_def)

lemma path_decomp:
  assumes "p \<noteq> []" "last p \<noteq> CHR ''/''"
  obtains (bare) "CHR ''/'' \<notin> set p" "rev (dropWhile (\<lambda>c. c \<noteq> CHR ''/'') (rev p)) = []"
  | (nested) h t where "p = h @ CHR ''/'' # t" "CHR ''/'' \<notin> set t" "t \<noteq> []"
      "rev (dropWhile (\<lambda>c. c \<noteq> CHR ''/'') (rev p)) = h @ [CHR ''/'']"
proof -
  let ?t = "takeWhile (\<lambda>c. c \<noteq> CHR ''/'') (rev p)"
  let ?d = "dropWhile (\<lambda>c. c \<noteq> CHR ''/'') (rev p)"
  have rp: "rev p = ?t @ ?d" by simp
  then have p: "p = rev ?d @ rev ?t" by (metis rev_append rev_rev_ident)
  have "hd (rev p) \<noteq> CHR ''/''" using assms by (simp add: hd_rev)
  with assms(1) have tn: "?t \<noteq> []" by (cases "rev p") auto
  have ts: "CHR ''/'' \<notin> set (rev ?t)" by (auto dest: set_takeWhileD)
  show thesis
  proof (cases ?d)
    case Nil
    with p ts have "CHR ''/'' \<notin> set p" by simp
    with Nil show ?thesis by (intro bare) simp_all
  next
    case (Cons c d')
    then have "c = CHR ''/''" using hd_dropWhile [of "\<lambda>c. c \<noteq> CHR ''/''" "rev p"] by auto
    with Cons have d: "rev ?d = rev d' @ [CHR ''/'']" by simp
    with p have "p = rev d' @ CHR ''/'' # rev ?t" by simp
    then show ?thesis using ts tn d by (intro nested [of "rev d'" "rev ?t"]) simp_all
  qed
qed

lemma dirname_bare: "CHR ''/'' \<notin> set p \<Longrightarrow> dirname p = []"
proof -
  assume "CHR ''/'' \<notin> set p"
  then have "dropWhile (\<lambda>c. c \<noteq> CHR ''/'') (rev p) = []" by auto
  then show ?thesis by (simp add: dirname_def)
qed

lemma dirname_head:
  assumes "rev (dropWhile (\<lambda>c. c \<noteq> CHR ''/'') (rev p)) = head"
  shows "dirname p =
           (if head \<noteq> [] \<and> head \<noteq> replicate (length head) CHR ''/''
            then rev (dropWhile (\<lambda>c. c = CHR ''/'') (rev head)) else head)"
  unfolding dirname_def assms Let_def ..

lemma head_nested:
  assumes "CHR ''/'' \<notin> set t"
  shows "rev (dropWhile (\<lambda>c. c \<noteq> CHR ''/'') (rev (h @ CHR ''/'' # t))) = h @ [CHR ''/'']"
proof -
  have "dropWhile (\<lambda>c. c \<noteq> CHR ''/'') (rev t) = []"
    using assms by auto
  then have "dropWhile (\<lambda>c. c \<noteq> CHR ''/'') (rev t @ CHR ''/'' # rev h) = CHR ''/'' # rev h"
    by (simp add: dropWhile_append3)
  then show ?thesis by simp
qed

lemma rstrip_not_Nil:
  assumes "xs \<noteq> replicate (length xs) x"
  shows "rev (dropWhile (\<lambda>c. c = x) (rev xs)) \<noteq> []"
proof
  assume e: "rev (dropWhile (\<lambda>c. c = x) (rev xs)) = []"
  have "xs = rev (dropWhile (\<lambda>c. c = x) (rev xs)) @
               replicate (length (takeWhile (\<lambda>c. c = x) (rev xs))) x"
    by (rule rstrip_decomp)
  then have "xs = replicate (length (takeWhile (\<lambda>c. c = x) (rev xs))) x"
    unfolding e by simp
  then have "\<exists>n. xs = replicate n x" ..
  then obtain n where n: "xs = replicate n x" ..
  then have "length xs = n" by simp
  with n have "xs = replicate (length xs) x" by simp
  with assms show False by contradiction
qed

lemma is_abs_rstrip:
  assumes "xs \<noteq> replicate (length xs) CHR ''/''"
  shows "is_abs (rev (dropWhile (\<lambda>c. c = CHR ''/'') (rev xs))) = is_abs xs"
proof -
  define s where "s = rev (dropWhile (\<lambda>c. c = CHR ''/'') (rev xs))"
  define k where "k = length (takeWhile (\<lambda>c. c = CHR ''/'') (rev xs))"
  have sn: "s \<noteq> []" unfolding s_def using assms by (rule rstrip_not_Nil)
  have "xs = s @ replicate k CHR ''/''"
    unfolding s_def k_def by (rule rstrip_decomp)
  then have "is_abs xs = is_abs (s @ replicate k CHR ''/'')" by (rule arg_cong)
  also have "\<dots> = is_abs s" using sn by (rule is_abs_append)
  finally show ?thesis unfolding s_def by (rule sym)
qed

lemma dirname_nested:
  assumes "CHR ''/'' \<notin> set t"
  shows "dirname (h @ CHR ''/'' # t) \<noteq> [] \<and>
         components (dirname (h @ CHR ''/'' # t)) = components h \<and>
         is_abs (dirname (h @ CHR ''/'' # t)) = is_abs (h @ CHR ''/'' # t)"
proof -
  define p where "p = h @ CHR ''/'' # t"
  define head where "head = h @ [CHR ''/'']"
  have hn: "head \<noteq> []" by (simp add: head_def)
  have ph: "p = head @ t" by (simp add: p_def head_def)
  have "rev (dropWhile (\<lambda>c. c \<noteq> CHR ''/'') (rev p)) = head"
    unfolding p_def head_def using assms by (rule head_nested)
  then have dn: "dirname p =
           (if head \<noteq> [] \<and> head \<noteq> replicate (length head) CHR ''/''
            then rev (dropWhile (\<lambda>c. c = CHR ''/'') (rev head)) else head)"
    by (rule dirname_head)
  have ch: "components head = components h"
    unfolding head_def using components_append [of h "[]"] by (simp add: components_Nil)
  have ap: "is_abs p = is_abs head"
    unfolding ph using hn by (rule is_abs_append)
  have "dirname p \<noteq> [] \<and> components (dirname p) = components h \<and>
        is_abs (dirname p) = is_abs p"
  proof (cases "head = replicate (length head) CHR ''/''")
    case True
    then have "\<not> (head \<noteq> [] \<and> head \<noteq> replicate (length head) CHR ''/'')" by blast
    then have "dirname p = head" unfolding dn by (rule if_not_P)
    then show ?thesis unfolding ap using hn ch by (simp only: simp_thms)
  next
    case False
    with hn have "head \<noteq> [] \<and> head \<noteq> replicate (length head) CHR ''/''" by blast
    then have d: "dirname p = rev (dropWhile (\<lambda>c. c = CHR ''/'') (rev head))"
      unfolding dn by (rule if_P)
    have "dirname p \<noteq> []" unfolding d using False by (rule rstrip_not_Nil)
    moreover have "components (dirname p) = components h"
      unfolding d components_rstrip by (rule ch)
    moreover have "is_abs (dirname p) = is_abs p"
      unfolding d ap using False by (rule is_abs_rstrip)
    ultimately show ?thesis by blast
  qed
  then show ?thesis unfolding p_def .
qed

lemma dirname_components:
  assumes "p \<noteq> []" "last p \<noteq> CHR ''/''"
  shows "components p \<noteq> [] \<and>
         components (dirname p) = butlast (components p) \<and>
         (dirname p \<noteq> [] \<longrightarrow> start w (dirname p) = start w p) \<and>
         (dirname p = [] \<longrightarrow> butlast (components p) = [])"
  using assms
proof (cases p rule: path_decomp)
  case bare
  with assms(1) have c: "components p = [p]" by (simp add: components_no_slash)
  from c dirname_bare [OF bare(1)] show ?thesis by (simp add: components_Nil)
next
  case (nested h t)
  from nested have c: "components p = components h @ [t]"
    by (simp add: components_append components_no_slash)
  from dirname_nested [OF nested(2), of h] nested(1) c show ?thesis
    by (simp add: start_def)
qed

subsection \<open>File system calls\<close>

lemma mkdir_walk_ok:
  "\<forall>d \<in> set (made cur cs). d \<notin> dom (files w) \<Longrightarrow>
   mkdir_walk cur cs w = (Inr (), w\<lparr>dirs := dirs w \<union> set (made cur cs)\<rparr>)"
proof (induction cs arbitrary: cur w)
  case Nil
  then show ?case by simp
next
  case (Cons c cs)
  show ?case
  proof (cases "c = ''.'' \<or> c = ''..''")
    case True
    with Cons.prems have "\<forall>d \<in> set (made (step cur c) cs). d \<notin> dom (files w)" by simp
    from Cons.IH [OF this] True show ?thesis by simp
  next
    case False
    define w1 where "w1 = w\<lparr>dirs := insert (cur @ [c]) (dirs w)\<rparr>"
    from False Cons.prems have n: "cur @ [c] \<notin> dom (files w)"
      and r: "\<forall>d \<in> set (made (cur @ [c]) cs). d \<notin> dom (files w1)"
      by (simp_all add: w1_def)
    have "mkdir_walk cur (c # cs) w = mkdir_walk (cur @ [c]) cs w1"
      using False n by (simp add: w1_def)
    also have "\<dots> = (Inr (), w1\<lparr>dirs := dirs w1 \<union> set (made (cur @ [c]) cs)\<rparr>)"
      using r by (rule Cons.IH)
    also have "w1\<lparr>dirs := dirs w1 \<union> set (made (cur @ [c]) cs)\<rparr> =
               w\<lparr>dirs := dirs w \<union> set (made cur (c # cs))\<rparr>"
      using False by (simp add: w1_def)
    finally show ?thesis .
  qed
qed

lemma walk_ok:
  "set (made cur cs) \<subseteq> dirs w \<Longrightarrow> walk w cur cs = Inr (foldl step cur cs)"
proof (induction cs arbitrary: cur)
  case Nil
  then show ?case by simp
next
  case (Cons c cs)
  show ?case
  proof (cases "c = ''.'' \<or> c = ''..''")
    case True
    with Cons.prems have "set (made (step cur c) cs) \<subseteq> dirs w" by simp
    from Cons.IH [OF this] True show ?thesis by simp
  next
    case False
    with Cons.prems have i: "cur @ [c] \<in> dirs w" and r: "set (made (cur @ [c]) cs) \<subseteq> dirs w"
      by simp_all
    from False have s: "step cur c = cur @ [c]" by (simp add: step_def)
    from Cons.IH [OF r] False i s show ?thesis by simp
  qed
qed

lemma prefixes_butlast: "set (prefixes (butlast xs)) \<subseteq> set (prefixes xs)"
proof
  fix ys assume "ys \<in> set (prefixes (butlast xs))"
  then have "prefix ys (butlast xs)" by simp
  moreover have "prefix (butlast xs) xs" by (rule prefixeq_butlast)
  ultimately have "prefix ys xs" by (rule prefix_order.trans)
  then show "ys \<in> set (prefixes xs)" by simp
qed

lemma walk_prefixes:
  "set (prefixes cur) \<subseteq> D \<Longrightarrow> set (made cur cs) \<subseteq> D \<Longrightarrow>
   set (prefixes (foldl step cur cs)) \<subseteq> D"
proof (induction cs arbitrary: cur)
  case Nil
  then show ?case by simp
next
  case (Cons c cs)
  show ?case
  proof (cases "c = ''.'' \<or> c = ''..''")
    case True
    have "set (prefixes (step cur c)) \<subseteq> D"
      using True Cons.prems(1) prefixes_butlast [of cur] by (auto simp: step_def)
    moreover from True Cons.prems(2) have "set (made (step cur c) cs) \<subseteq> D" by simp
    ultimately show ?thesis using Cons.IH by simp
  next
    case False
    then have s: "step cur c = cur @ [c]" by (simp add: step_def)
    from False Cons.prems have "set (prefixes (cur @ [c])) \<subseteq> D"
      and "set (made (cur @ [c]) cs) \<subseteq> D"
      by (simp_all add: prefixes_snoc)
    then show ?thesis using Cons.IH s by simp
  qed
qed

lemma resolve_last:
  assumes "components p \<noteq> []" "last (components p) \<noteq> ''.''" "last (components p) \<noteq> ''..''"
  shows "resolve w p = foldl step (start w p) (butlast (components p)) @ [last (components p)]"
proof -
  have "components p = butlast (components p) @ [last (components p)]"
    using assms(1) by simp
  then have "resolve w p =
               foldl step (start w p) (butlast (components p) @ [last (components p)])"
    by (simp add: resolve_def)
  also have "\<dots> = step (foldl step (start w p) (butlast (components p))) (last (components p))"
    by simp
  also have "\<dots> = foldl step (start w p) (butlast (components p)) @ [last (components p)]"
    using assms(2,3) by (simp add: step_def)
  finally show ?thesis .
qed

lemma open_w_ok:
  assumes "p \<noteq> []" "last p \<noteq> CHR ''/''"
    and "last (components p) \<noteq> ''.''" "last (components p) \<noteq> ''..''"
    and "os_refuses w1 p = None"
    and "cwd w1 = cwd w"
    and "set (on_the_way w p) \<subseteq> dirs w1"
    and "resolve w p \<notin> dirs w1"
  shows "open_w p w1 = (Inr (resolve w p), w1\<lparr>files := (files w1)(resolve w p \<mapsto> [])\<rparr>)"
proof -
  from dirname_components [OF assms(1,2)] have cn: "components p \<noteq> []" by blast
  have st: "start w1 p = start w p" using assms(6) by (simp add: start_def)
  from assms(7) have "walk w1 (start w p) (butlast (components p)) =
                        Inr (foldl step (start w p) (butlast (components p)))"
    unfolding on_the_way_def by (rule walk_ok)
  moreover note resolve_last [OF cn assms(3,4), of w]
  ultimately show ?thesis
    using assms(1-5,8) cn st by (simp add: open_w_def Let_def)
qed

subsection \<open>The CSV writer\<close>

lemma writerows_ok:
  assumes "\<forall>rowdict \<in> set symbols. \<forall>key \<in> set (map fst rowdict). key \<in> set fieldnames"
    and "files w csvfile = Some rows"
  shows "writerows csvfile symbols w =
           (Inr (), w\<lparr>files := (files w)(csvfile \<mapsto> rows @ map row_of symbols)\<rparr>)"
  using assms
proof (induction symbols arbitrary: w rows)
  case Nil
  then have "(files w)(csvfile \<mapsto> rows) = files w" by (simp add: map_upd_triv)
  then show ?case by simp
next
  case (Cons rowdict symbols)
  from Cons.prems(1) have d: "dict_to_list rowdict = Inr (row_of rowdict)"
    by (auto simp: dict_to_list_def)
  define w1 where "w1 = writerow csvfile (row_of rowdict) w"
  have f1: "files w1 csvfile = Some (rows @ [row_of rowdict])"
    using Cons.prems(2) by (simp add: w1_def writerow_def)
  from Cons.prems(1) have rest: "\<forall>rowdict \<in> set symbols. \<forall>key \<in> set (map fst rowdict). key \<in> set fieldnames"
    by simp
  have step: "writerows csvfile (rowdict # symbols) w = writerows csvfile symbols w1"
    using d by (simp add: w1_def)
  have upd: "w1\<lparr>files := (files w1)(csvfile \<mapsto> (rows @ [row_of rowdict]) @ map row_of symbols)\<rparr> =
             w\<lparr>files := (files w)(csvfile \<mapsto> rows @ map row_of (rowdict # symbols))\<rparr>"
    using Cons.prems(2) by (simp add: w1_def writerow_def)
  have "writerows csvfile symbols w1 =
          (Inr (), w1\<lparr>files := (files w1)(csvfile \<mapsto> (rows @ [row_of rowdict]) @ map row_of symbols)\<rparr>)"
    using rest f1 by (rule Cons.IH)
  then show ?case unfolding step upd .
qed

text \<open>
  Claim C9. Let every record have only keys among the six field names. Let the
  output path name a file: it is not empty, does not end with a slash, and its
  last component is neither \<^verbatim>\<open>.\<close> nor \<^verbatim>\<open>..\<close>. Let the operating system refuse
  neither the path nor its directory name, let the working directory and the
  directories above it exist, let no directory on the way to the file be a
  regular file, and let the place of the file be no directory, neither before
  the call nor among the directories on the way. Then \<^verbatim>\<open>write_csv\<close> succeeds.
  Afterwards the directories are those there were and those on the way to the
  file, so that every directory above the file exists; the file holds exactly
  the header row \<^verbatim>\<open>symbol\<close>, \<^verbatim>\<open>base\<close>, \<^verbatim>\<open>quote\<close>, \<^verbatim>\<open>instrument\<close>, \<^verbatim>\<open>priceTick\<close>,
  \<^verbatim>\<open>szTick\<close> followed by one row per record, in the order of the records, with
  the values of these six keys in this order (the empty string for a missing
  key), whatever the file held before; and every other file is as it was.
\<close>

theorem write_csv_writes:
  assumes normalized:
      "\<forall>rowdict \<in> set symbols. \<forall>key \<in> set (map fst rowdict).
         key \<in> {''symbol'', ''base'', ''quote'', ''instrument'', ''priceTick'', ''szTick''}"
    and names_a_file: "output_path \<noteq> []" "last output_path \<noteq> CHR ''/''"
      "last (components output_path) \<noteq> ''.''" "last (components output_path) \<noteq> ''..''"
    and not_refused: "os_refuses w output_path = None"
      "dirname output_path \<noteq> [] \<longrightarrow> os_refuses w (dirname output_path) = None"
    and cwd_exists: "set (prefixes (cwd w)) \<subseteq> dirs w"
    and no_file_on_the_way: "\<forall>d \<in> set (on_the_way w output_path). d \<notin> dom (files w)"
    and no_directory_there:
      "resolve w output_path \<notin> dirs w \<union> set (on_the_way w output_path)"
  shows "\<exists>w1. write_csv symbols output_path w = (Inr (), w1) \<and>
              dirs w1 = dirs w \<union> set (on_the_way w output_path) \<and>
              set (prefixes (butlast (resolve w output_path))) \<subseteq> dirs w1 \<and>
              files w1 = (files w)(resolve w output_path \<mapsto>
                [JStr ''symbol'', JStr ''base'', JStr ''quote'', JStr ''instrument'',
                 JStr ''priceTick'', JStr ''szTick''] #
                map (\<lambda>rowdict.
                       map (\<lambda>key. case map_of rowdict key of None \<Rightarrow> JStr '''' | Some v \<Rightarrow> v)
                         [''symbol'', ''base'', ''quote'', ''instrument'', ''priceTick'',
                          ''szTick''])
                  symbols)"
proof -
  let ?target = "resolve w output_path"
  let ?made = "set (on_the_way w output_path)"
  define w1 where "w1 = w\<lparr>dirs := dirs w \<union> ?made\<rparr>"
  note dc = dirname_components [OF names_a_file(1,2), of w]
  have mk: "(if dirname output_path \<noteq> [] then os_makedirs (dirname output_path) w
             else (Inr (), w)) = (Inr (), w1)"
  proof (cases "dirname output_path = []")
    case True
    with dc have "on_the_way w output_path = []" by (simp add: on_the_way_def)
    then have "w1 = w" by (simp add: w1_def)
    with True show ?thesis by simp
  next
    case False
    with dc have m: "made (start w (dirname output_path)) (components (dirname output_path)) =
                     on_the_way w output_path"
      by (simp add: on_the_way_def)
    with no_file_on_the_way have
      "\<forall>d \<in> set (made (start w (dirname output_path)) (components (dirname output_path))).
         d \<notin> dom (files w)"
      by simp
    from mkdir_walk_ok [OF this] m False not_refused(2) show ?thesis
      by (simp add: os_makedirs_def w1_def)
  qed
  have op: "open_w output_path w1 = (Inr ?target, w1\<lparr>files := (files w1)(?target \<mapsto> [])\<rparr>)"
  proof (rule open_w_ok [OF names_a_file])
    show "os_refuses w1 output_path = None" using not_refused(1) by (simp add: w1_def)
    show "cwd w1 = cwd w" by (simp add: w1_def)
    show "?made \<subseteq> dirs w1" by (simp add: w1_def)
    show "?target \<notin> dirs w1" using no_directory_there by (simp add: w1_def)
  qed
  define w2 where "w2 = writeheader ?target (w1\<lparr>files := (files w1)(?target \<mapsto> [])\<rparr>)"
  have f2: "files w2 ?target = Some [map JStr fieldnames]"
    by (simp add: w2_def writeheader_def writerow_def)
  have norm: "\<forall>rowdict \<in> set symbols. \<forall>key \<in> set (map fst rowdict). key \<in> set fieldnames"
    using normalized by (simp add: fieldnames_def)
  note wr = writerows_ok [OF norm f2]
  define w3 where "w3 = w2\<lparr>files := (files w2)(?target \<mapsto> [map JStr fieldnames] @ map row_of symbols)\<rparr>"
  have run: "write_csv symbols output_path w =
               (Inr (), print (Successfully_wrote (length symbols) output_path) w3)"
    unfolding write_csv_def Let_def mk using op wr by (simp add: w2_def w3_def)
  have d3: "dirs (print (Successfully_wrote (length symbols) output_path) w3) = dirs w \<union> ?made"
    by (simp add: print_def w3_def w2_def writeheader_def writerow_def w1_def)
  have st: "set (prefixes (start w output_path)) \<subseteq> dirs w \<union> ?made"
    using cwd_exists by (auto simp: start_def)
  have "set (prefixes (foldl step (start w output_path) (butlast (components output_path))))
          \<subseteq> dirs w \<union> ?made"
    by (rule walk_prefixes [OF st]) (simp add: on_the_way_def)
  moreover have "butlast ?target =
                   foldl step (start w output_path) (butlast (components output_path))"
    using resolve_last [of output_path w] dc names_a_file(3,4) by simp
  ultimately have pre: "set (prefixes (butlast ?target)) \<subseteq> dirs w \<union> ?made" by simp
  have rows: "map row_of symbols =
                map (\<lambda>rowdict.
                       map (\<lambda>key. case map_of rowdict key of None \<Rightarrow> JStr '''' | Some v \<Rightarrow> v)
                         [''symbol'', ''base'', ''quote'', ''instrument'', ''priceTick'',
                          ''szTick''])
                  symbols"
    by (simp add: row_of_def fieldnames_def)
  have f3: "files (print (Successfully_wrote (length symbols) output_path) w3) =
              (files w)(?target \<mapsto>
                [JStr ''symbol'', JStr ''base'', JStr ''quote'', JStr ''instrument'',
                 JStr ''priceTick'', JStr ''szTick''] #
                map (\<lambda>rowdict.
                       map (\<lambda>key. case map_of rowdict key of None \<Rightarrow> JStr '''' | Some v \<Rightarrow> v)
                         [''symbol'', ''base'', ''quote'', ''instrument'', ''priceTick'',
                          ''szTick''])
                  symbols)"
    unfolding rows [symmetric]
    by (simp add: print_def w3_def w2_def writeheader_def writerow_def w1_def fieldnames_def)
  from run d3 pre f3 show ?thesis
    by (intro exI [of _ "print (Successfully_wrote (length symbols) output_path) w3"] conjI)
      simp_all
qed

lemma sample_path:
  "components ''./artifact/binance.csv'' = [''.'', ''artifact'', ''binance.csv'']"
  "dirname ''./artifact/binance.csv'' = ''./artifact''"
  "start sample_fs ''./artifact/binance.csv'' = [''home'']"
  by (simp_all add: components_def dirname_def start_def is_abs_def sample_fs_def)

text \<open>
  The theorem at the path \<^verbatim>\<open>./artifact/binance.csv\<close> in the sample file system,
  where the directory \<^verbatim>\<open>artifact\<close> is missing, for one record.
\<close>

theorem write_csv_writes_witness:
  "\<exists>w1. write_csv [[(''symbol'', JStr ''BTCUSDT''), (''base'', JStr ''BTC''),
                     (''quote'', JStr ''USDT''), (''instrument'', JStr ''spot''),
                     (''priceTick'', JStr ''0.01''), (''szTick'', JStr ''0.00001'')]]
          ''./artifact/binance.csv'' sample_fs = (Inr (), w1) \<and>
        dirs w1 = {[], [''home''], [''home'', ''artifact'']} \<and>
        files w1 =
          [[''home'', ''old.csv''] \<mapsto> [[JStr ''symbol'']],
           [''home'', ''artifact'', ''binance.csv''] \<mapsto>
             [[JStr ''symbol'', JStr ''base'', JStr ''quote'', JStr ''instrument'',
               JStr ''priceTick'', JStr ''szTick''],
              [JStr ''BTCUSDT'', JStr ''BTC'', JStr ''USDT'', JStr ''spot'', JStr ''0.01'',
               JStr ''0.00001'']]]"
proof -
  have r: "resolve sample_fs ''./artifact/binance.csv'' = [''home'', ''artifact'', ''binance.csv'']"
    and o: "on_the_way sample_fs ''./artifact/binance.csv'' = [[''home'', ''artifact'']]"
    by (simp_all add: resolve_def on_the_way_def sample_path step_def)
  have f: "files sample_fs = [[''home'', ''old.csv''] \<mapsto> [[JStr ''symbol'']]]"
    and d: "dirs sample_fs = {[], [''home'']}"
    and c: "cwd sample_fs = [''home'']"
    and n: "os_refuses sample_fs = (\<lambda>p. None)"
    by (simp_all add: sample_fs_def)
  have "\<exists>w1. write_csv [[(''symbol'', JStr ''BTCUSDT''), (''base'', JStr ''BTC''),
                     (''quote'', JStr ''USDT''), (''instrument'', JStr ''spot''),
                     (''priceTick'', JStr ''0.01''), (''szTick'', JStr ''0.00001'')]]
          ''./artifact/binance.csv'' sample_fs = (Inr (), w1) \<and>
        dirs w1 = dirs sample_fs \<union> set (on_the_way sample_fs ''./artifact/binance.csv'') \<and>
        set (prefixes (butlast (resolve sample_fs ''./artifact/binance.csv''))) \<subseteq> dirs w1 \<and>
        files w1 = (files sample_fs)(resolve sample_fs ''./artifact/binance.csv'' \<mapsto>
                [JStr ''symbol'', JStr ''base'', JStr ''quote'', JStr ''instrument'',
                 JStr ''priceTick'', JStr ''szTick''] #
                map (\<lambda>rowdict.
                       map (\<lambda>key. case map_of rowdict key of None \<Rightarrow> JStr '''' | Some v \<Rightarrow> v)
                         [''symbol'', ''base'', ''quote'', ''instrument'', ''priceTick'',
                          ''szTick''])
                  [[(''symbol'', JStr ''BTCUSDT''), (''base'', JStr ''BTC''),
                     (''quote'', JStr ''USDT''), (''instrument'', JStr ''spot''),
                     (''priceTick'', JStr ''0.01''), (''szTick'', JStr ''0.00001'')]])"
    by (rule write_csv_writes) (simp_all add: r o f d c n sample_path)
  then show ?thesis
    unfolding r o f d by (auto simp: insert_commute)
qed

section \<open>Properties of the orchestrator\<close>

subsection \<open>Fetching leaves the file system alone\<close>

lemma requests_get_fs:
  "requests_get u ps w = (r, w1) \<Longrightarrow> files w1 = files w \<and> dirs w1 = dirs w \<and> cwd w1 = cwd w"
  by (auto simp: requests_get_def Let_def split: list.splits http_result.splits)

lemma paginate_fs:
  "paginate base category cursor all_symbols w = (r, w1) \<Longrightarrow>
   files w1 = files w \<and> dirs w1 = dirs w \<and> cwd w1 = cwd w"
proof (induction base category cursor all_symbols w arbitrary: r w1 rule: paginate.induct)
  case (1 base category cursor all_symbols w)
  obtain res wa where g: "requests_get (base @ ''/v5/market/instruments-info'')
                            (page_params category cursor) w = (res, wa)"
    by (cases "requests_get (base @ ''/v5/market/instruments-info'') (page_params category cursor) w")
  note fs = requests_get_fs [OF g]
  show ?case
  proof (cases res)
    case (Inl e)
    with 1(2) g fs show ?thesis by (subst (asm) paginate.simps) auto
  next
    case (Inr response)
    show ?thesis
    proof (cases "raise_for_status response")
      case (Inl e)
      with 1(2) g fs Inr show ?thesis by (subst (asm) paginate.simps) auto
    next
      case ok: (Inr u)
      show ?thesis
      proof (cases "read_page category (snd response)")
        case (Inl e)
        with 1(2) g fs Inr ok show ?thesis by (subst (asm) paginate.simps) auto
      next
        case page: (Inr pg)
        obtain page_symbols tagged next_cursor where pg: "pg = (page_symbols, tagged, next_cursor)"
          by (cases pg)
        show ?thesis
        proof (cases "\<not> truthy next_cursor \<or> \<not> truthy page_symbols")
          case True
          with 1(2) g fs Inr ok page pg show ?thesis by (subst (asm) paginate.simps) auto
        next
          case False
          let ?w2 = "print (Fetched (length tagged) category (length (all_symbols @ tagged))) wa"
          from 1(2) g Inr ok page pg False
          have p: "paginate base category next_cursor (all_symbols @ tagged) ?w2 = (r, w1)"
            by (subst (asm) paginate.simps) auto
          from 1(1) [OF g [symmetric] Inr ok page pg [symmetric] refl False p] fs
          show ?thesis by (simp add: print_def)
        qed
      qed
    qed
  qed
qed

lemma fetch_categories_fs:
  "fetch_categories base categories all_symbols w = (r, w1) \<Longrightarrow>
   files w1 = files w \<and> dirs w1 = dirs w \<and> cwd w1 = cwd w"
proof (induction categories arbitrary: all_symbols w)
  case Nil
  then show ?case by auto
next
  case (Cons category categories)
  obtain res wa where p: "paginate base category JNull all_symbols
                            (print (Fetching_category category) w) = (res, wa)"
    by (cases "paginate base category JNull all_symbols (print (Fetching_category category) w)")
  from paginate_fs [OF p] have fs: "files wa = files w \<and> dirs wa = dirs w \<and> cwd wa = cwd w"
    by (simp add: print_def)
  show ?case
  proof (cases res)
    case (Inl e)
    with Cons.prems p fs show ?thesis by auto
  next
    case (Inr all_symbols1)
    with Cons.prems p have "fetch_categories base categories all_symbols1 wa = (r, w1)" by simp
    from Cons.IH [OF this] fs show ?thesis by simp
  qed
qed

lemma get_exchange_info_fs:
  "get_exchange_info fetcher w = (r, w1) \<Longrightarrow>
   files w1 = files w \<and> dirs w1 = dirs w \<and> cwd w1 = cwd w"
proof (cases fetcher)
  case BybitFetcher
  assume a: "get_exchange_info fetcher w = (r, w1)"
  obtain res wa where f: "fetch_categories (base_url BybitFetcher)
                            [''spot'', ''linear'', ''inverse''] [] w = (res, wa)"
    by (cases "fetch_categories (base_url BybitFetcher) [''spot'', ''linear'', ''inverse''] [] w")
  from a BybitFetcher f have "w1 = wa"
    by (cases res) (auto simp: bybit_get_exchange_info_def)
  with fetch_categories_fs [OF f] show ?thesis by simp
next
  case BinanceSpotFetcher
  assume a: "get_exchange_info fetcher w = (r, w1)"
  obtain res wa where g: "requests_get (base_url BinanceSpotFetcher @ ''/v3/exchangeInfo'') [] w = (res, wa)"
    by (cases "requests_get (base_url BinanceSpotFetcher @ ''/v3/exchangeInfo'') [] w")
  from a BinanceSpotFetcher g have "w1 = wa"
    by (cases res) (auto simp: binance_get_exchange_info_def split: sum.splits)
  with requests_get_fs [OF g] show ?thesis by simp
next
  case BinancePerpFetcher
  assume a: "get_exchange_info fetcher w = (r, w1)"
  obtain res wa where g: "requests_get (base_url BinancePerpFetcher @ ''/fapi/v1/exchangeInfo'') [] w = (res, wa)"
    by (cases "requests_get (base_url BinancePerpFetcher @ ''/fapi/v1/exchangeInfo'') [] w")
  from a BinancePerpFetcher g have "w1 = wa"
    by (cases res) (auto simp: binance_get_exchange_info_def split: sum.splits)
  with requests_get_fs [OF g] show ?thesis by simp
qed

lemma get_fetcher_choices:
  "market \<in> set choices \<longleftrightarrow> (\<exists>fetcher. get_fetcher market = Inr fetcher)"
  by (auto simp: choices_def get_fetcher_def fetchers_def)

lemma get_fetcher_Inl:
  "get_fetcher market = Inl e \<Longrightarrow> market \<notin> set choices"
  using get_fetcher_choices [of market] by auto

lemma main_try_fs:
  assumes "get_fetcher market = Inr fetcher"
    and "get_exchange_info fetcher (print (Fetching_exchange_info market) w) = (r, w1)"
    and "r = Inl e \<or> (\<exists>exchange_info. r = Inr exchange_info \<and> parse_symbols fetcher exchange_info = Inl e)"
  shows "\<exists>w2. main_try market dst w = (Inl e, w2) \<and> files w2 = files w \<and> dirs w2 = dirs w"
proof -
  from get_exchange_info_fs [OF assms(2)]
  have fs: "files w1 = files w \<and> dirs w1 = dirs w" by (simp add: print_def)
  from assms(3) show ?thesis
  proof
    assume "r = Inl e"
    with assms(1,2) fs show ?thesis by (simp add: main_try_def)
  next
    assume "\<exists>exchange_info. r = Inr exchange_info \<and> parse_symbols fetcher exchange_info = Inl e"
    with assms(1,2) fs show ?thesis by (auto simp: main_try_def print_def)
  qed
qed

lemma main_failure:
  assumes "market \<in> set choices"
    and "main_try market (case dst_arg of None \<Rightarrow> ''artifact/'' @ market @ ''.csv'' | Some d \<Rightarrow> d) w
           = (Inl e, w1)"
  shows "main market dst_arg w =
           (1, print_stderr (if is_RequestException e then Error_fetching_data e else Error_line e) w1)"
  using assms by (simp add: main_def)

lemma offline_try:
  "fst (main_try ''binance'' ''artifact/binance.csv'' offline_world) = Inl ConnectionError"
  by (simp add: main_try_def get_fetcher_def fetchers_def binance_get_exchange_info_def
        requests_get_def offline_world_def sample_fs_def print_def)

lemma garbled_try:
  "fst (main_try ''binance'' ''artifact/binance.csv'' garbled_world) = Inl AttributeError"
  by (simp add: main_try_def get_fetcher_def fetchers_def binance_get_exchange_info_def
        requests_get_def garbled_world_def sample_fs_def print_def raise_for_status_def
        binance_parse_symbols_def)

subsection \<open>No output file after a failure\<close>

text \<open>
  Claim C5. If fetcher selection raises, or fetching raises, or parsing raises,
  then \<^verbatim>\<open>main\<close> leaves every file and every directory as it found them, and
  exits with a status other than 0: the writer has not run.
\<close>

theorem no_write_on_failure:
  assumes "get_fetcher market = Inl e \<or>
           (\<exists>fetcher w1. get_fetcher market = Inr fetcher \<and>
               get_exchange_info fetcher (print (Fetching_exchange_info market) w) = (Inl e, w1)) \<or>
           (\<exists>fetcher exchange_info w1. get_fetcher market = Inr fetcher \<and>
               get_exchange_info fetcher (print (Fetching_exchange_info market) w) =
                 (Inr exchange_info, w1) \<and>
               parse_symbols fetcher exchange_info = Inl e)"
  shows "files (snd (main market dst_arg w)) = files w \<and>
         dirs (snd (main market dst_arg w)) = dirs w \<and>
         fst (main market dst_arg w) \<noteq> 0"
proof (cases "get_fetcher market")
  case (Inl e')
  then have "market \<notin> set choices" by (rule get_fetcher_Inl)
  then show ?thesis by (simp add: main_def print_stderr_def)
next
  case (Inr fetcher)
  then have c: "market \<in> set choices" using get_fetcher_choices by blast
  define dst where "dst = (case dst_arg of None \<Rightarrow> ''artifact/'' @ market @ ''.csv'' | Some d \<Rightarrow> d)"
  from assms Inr obtain r w1 where
    g: "get_exchange_info fetcher (print (Fetching_exchange_info market) w) = (r, w1)" and
    r: "r = Inl e \<or> (\<exists>exchange_info. r = Inr exchange_info \<and> parse_symbols fetcher exchange_info = Inl e)"
    by auto
  from main_try_fs [OF Inr g r, of dst] obtain w2 where
    t: "main_try market dst w = (Inl e, w2)" and fs: "files w2 = files w" "dirs w2 = dirs w"
    by blast
  from main_failure [OF c t [unfolded dst_def]] fs show ?thesis
    by (simp add: print_stderr_def)
qed

text \<open>The theorem at a run whose only HTTP call fails in transport.\<close>

theorem no_write_on_failure_witness:
  "(get_fetcher ''binance'' = Inl ConnectionError \<or>
    (\<exists>fetcher w1. get_fetcher ''binance'' = Inr fetcher \<and>
        get_exchange_info fetcher (print (Fetching_exchange_info ''binance'') offline_world) =
          (Inl ConnectionError, w1)) \<or>
    (\<exists>fetcher exchange_info w1. get_fetcher ''binance'' = Inr fetcher \<and>
        get_exchange_info fetcher (print (Fetching_exchange_info ''binance'') offline_world) =
          (Inr exchange_info, w1) \<and>
        parse_symbols fetcher exchange_info = Inl ConnectionError)) \<and>
   files (snd (main ''binance'' None offline_world)) = files offline_world \<and>
   dirs (snd (main ''binance'' None offline_world)) = dirs offline_world \<and>
   fst (main ''binance'' None offline_world) \<noteq> 0"
proof -
  have g: "get_fetcher ''binance'' = Inr BinanceSpotFetcher"
    by (simp add: get_fetcher_def fetchers_def)
  have "fst (get_exchange_info BinanceSpotFetcher
               (print (Fetching_exchange_info ''binance'') offline_world)) = Inl ConnectionError"
    by (simp add: binance_get_exchange_info_def requests_get_def offline_world_def
          sample_fs_def print_def)
  then have "\<exists>w1. get_exchange_info BinanceSpotFetcher
               (print (Fetching_exchange_info ''binance'') offline_world) = (Inl ConnectionError, w1)"
    by (cases "get_exchange_info BinanceSpotFetcher
               (print (Fetching_exchange_info ''binance'') offline_world)") simp
  with g have h: "get_fetcher ''binance'' = Inl ConnectionError \<or>
    (\<exists>fetcher w1. get_fetcher ''binance'' = Inr fetcher \<and>
        get_exchange_info fetcher (print (Fetching_exchange_info ''binance'') offline_world) =
          (Inl ConnectionError, w1)) \<or>
    (\<exists>fetcher exchange_info w1. get_fetcher ''binance'' = Inr fetcher \<and>
        get_exchange_info fetcher (print (Fetching_exchange_info ''binance'') offline_world) =
          (Inr exchange_info, w1) \<and>
        parse_symbols fetcher exchange_info = Inl ConnectionError)"
    by blast
  show ?thesis
    using h no_write_on_failure [OF h, of None] by (intro conjI) (assumption | blast)+
qed

subsection \<open>Exit status of a failure\<close>

text \<open>
  Claim C2 says that a network failure ends the process with an exit status that
  no other failure uses. Both handlers of \<^verbatim>\<open>main\<close> call \<^verbatim>\<open>sys.exit(1)\<close>: a run
  whose HTTP call fails in transport and a run whose payload cannot be parsed
  both exit with status 1.
\<close>

theorem exit_status_counterexample:
  "fst (main_try ''binance'' ''artifact/binance.csv'' offline_world) = Inl ConnectionError \<and>
   is_RequestException ConnectionError \<and>
   fst (main ''binance'' None offline_world) = 1 \<and>
   fst (main_try ''binance'' ''artifact/binance.csv'' garbled_world) = Inl AttributeError \<and>
   \<not> is_RequestException AttributeError \<and>
   fst (main ''binance'' None garbled_world) = 1"
proof -
  have "fst (main ''binance'' None offline_world) = 1"
    using offline_try
    by (cases "main_try ''binance'' ''artifact/binance.csv'' offline_world")
       (simp add: main_def choices_def)
  moreover have "fst (main ''binance'' None garbled_world) = 1"
    using garbled_try
    by (cases "main_try ''binance'' ''artifact/binance.csv'' garbled_world")
       (simp add: main_def choices_def)
  ultimately show ?thesis using offline_try garbled_try by simp
qed

text \<open>
  Claim C2 as amended. Every exception raised inside the \<^verbatim>\<open>try\<close> statement of
  \<^verbatim>\<open>main\<close>, from the network or not, ends the process with exit status 1; a
  network failure differs from the others only in the line written to the error
  stream, \<^verbatim>\<open>Error fetching data: ...\<close> instead of \<^verbatim>\<open>Error: ...\<close>.
\<close>

theorem failure_exit_status:
  assumes "market \<in> set choices"
    and "main_try market (case dst_arg of None \<Rightarrow> ''artifact/'' @ market @ ''.csv'' | Some d \<Rightarrow> d) w
           = (Inl e, w1)"
  shows "main market dst_arg w =
           (1, print_stderr (if is_RequestException e then Error_fetching_data e else Error_line e) w1)"
  using assms by (rule main_failure)

text \<open>The theorem at the run whose only HTTP call fails in transport.\<close>

theorem failure_exit_status_witness:
  "''binance'' \<in> set choices \<and>
   main_try ''binance'' (case None of None \<Rightarrow> ''artifact/'' @ ''binance'' @ ''.csv'' | Some d \<Rightarrow> d)
       offline_world =
     (Inl ConnectionError, snd (main_try ''binance'' ''artifact/binance.csv'' offline_world)) \<and>
   main ''binance'' None offline_world =
     (1, print_stderr (if is_RequestException ConnectionError
                       then Error_fetching_data ConnectionError else Error_line ConnectionError)
           (snd (main_try ''binance'' ''artifact/binance.csv'' offline_world)))"
proof -
  have c: "''binance'' \<in> set choices" by (simp add: choices_def)
  have t: "main_try ''binance''
             (case None of None \<Rightarrow> ''artifact/'' @ ''binance'' @ ''.csv'' | Some d \<Rightarrow> d)
             offline_world =
           (Inl ConnectionError, snd (main_try ''binance'' ''artifact/binance.csv'' offline_world))"
    using offline_try
    by (cases "main_try ''binance'' ''artifact/binance.csv'' offline_world") simp
  show ?thesis
    using c t failure_exit_status [OF c t] by (intro conjI) assumption+
qed

subsection \<open>Unsupported markets\<close>

text \<open>
  Claim C4. For a market name that is no key of \<^verbatim>\<open>fetchers\<close>, \<^verbatim>\<open>get_fetcher\<close>
  raises a \<^verbatim>\<open>ValueError\<close> whose message lists the three supported names; this
  exception is no \<^verbatim>\<open>RequestException\<close>, so the handlers of \<^verbatim>\<open>main\<close> tell it
  from a network failure; the \<^verbatim>\<open>try\<close> statement ends with it in the world it
  started in, so no HTTP call has been made; and \<^verbatim>\<open>main\<close> itself, where
  \<^verbatim>\<open>argparse\<close> rejects the name first, sends no request, takes no answer from
  the script and exits with status 2.
\<close>

theorem unsupported_market_fails:
  assumes "market \<notin> set (map fst fetchers)"
  shows "get_fetcher market =
           Inl (ValueError (''Unsupported market: '' @ market @ ''. Supported markets: ['' @
                  [CHR 0x27] @ ''binance'' @ [CHR 0x27] @ '', '' @
                  [CHR 0x27] @ ''binanceperp'' @ [CHR 0x27] @ '', '' @
                  [CHR 0x27] @ ''bybit'' @ [CHR 0x27] @ '']'')) \<and>
         \<not> is_RequestException (ValueError (unsupported_market market)) \<and>
         (\<exists>e. main_try market dst w = (Inl e, w)) \<and>
         sent (snd (main market dst_arg w)) = sent w \<and>
         script (snd (main market dst_arg w)) = script w \<and>
         fst (main market dst_arg w) = 2"
proof -
  from assms have n: "map_of fetchers market = None"
    by (simp add: map_of_eq_None_iff)
  then have g: "get_fetcher market = Inl (ValueError (unsupported_market market))"
    by (simp add: get_fetcher_def)
  have m: "unsupported_market market =
             ''Unsupported market: '' @ market @ ''. Supported markets: ['' @
                  [CHR 0x27] @ ''binance'' @ [CHR 0x27] @ '', '' @
                  [CHR 0x27] @ ''binanceperp'' @ [CHR 0x27] @ '', '' @
                  [CHR 0x27] @ ''bybit'' @ [CHR 0x27] @ '']''"
    by (simp add: unsupported_market_def str_list_def fetchers_def repr_str_def)
  from assms have c: "market \<notin> set choices" by (simp add: choices_def fetchers_def)
  from g m c show ?thesis
    by (simp add: main_try_def main_def print_stderr_def)
qed

text \<open>The theorem at the market name \<^verbatim>\<open>kraken\<close>.\<close>

theorem unsupported_market_fails_witness:
  "''kraken'' \<notin> set (map fst fetchers) \<and>
   (get_fetcher ''kraken'' =
           Inl (ValueError (''Unsupported market: '' @ ''kraken'' @ ''. Supported markets: ['' @
                  [CHR 0x27] @ ''binance'' @ [CHR 0x27] @ '', '' @
                  [CHR 0x27] @ ''binanceperp'' @ [CHR 0x27] @ '', '' @
                  [CHR 0x27] @ ''bybit'' @ [CHR 0x27] @ '']'')) \<and>
         \<not> is_RequestException (ValueError (unsupported_market ''kraken'')) \<and>
         (\<exists>e. main_try ''kraken'' ''out.csv'' offline_world = (Inl e, offline_world)) \<and>
         sent (snd (main ''kraken'' None offline_world)) = sent offline_world \<and>
         script (snd (main ''kraken'' None offline_world)) = script offline_world \<and>
         fst (main ''kraken'' None offline_world) = 2)"
proof -
  have h: "''kraken'' \<notin> set (map fst fetchers)" by (simp add: fetchers_def)
  show ?thesis
    using h unsupported_market_fails [OF h, of "''out.csv''" offline_world None]
    by (intro conjI) (assumption | blast)+
qed

end
